theory Spec2Isabelle
  imports Complex_Main "HOL-Library.AList"
begin

section \<open>JavaScript values used by the data worker\<close>

text \<open>
  The worker (\<^verbatim>\<open>src/data-worker.js\<close>) reads properties of plain objects and does
  arithmetic on them. A property that holds a string is modelled as \<open>string option\<close> and
  a property that holds a number as \<open>jsnum option\<close>; \<open>None\<close> is a property the object
  does not carry, which reads as \<^verbatim>\<open>undefined\<close>. An own property whose value is
  \<^verbatim>\<open>undefined\<close> or \<^verbatim>\<open>null\<close>, and a string in the place of a number, are outside
  this model.

  A JavaScript number is either \<^verbatim>\<open>NaN\<close> or finite. Finite numbers are modelled as
  reals: the rounding of binary64, the infinities and the sign of zero are not modelled.
\<close>

datatype jsnum = NaN | Fin real

text \<open>\<^verbatim>\<open>ToNumber\<close> on a numeric property: \<^verbatim>\<open>undefined\<close> becomes \<^verbatim>\<open>NaN\<close>.\<close>

fun to_number :: "jsnum option \<Rightarrow> jsnum" where
  "to_number None = NaN"
| "to_number (Some n) = n"

fun js_add :: "jsnum \<Rightarrow> jsnum \<Rightarrow> jsnum" where
  "js_add (Fin a) (Fin b) = Fin (a + b)"
| "js_add _ _ = NaN"

fun js_sub :: "jsnum \<Rightarrow> jsnum \<Rightarrow> jsnum" where
  "js_sub (Fin a) (Fin b) = Fin (a - b)"
| "js_sub _ _ = NaN"

fun js_mul :: "jsnum \<Rightarrow> jsnum \<Rightarrow> jsnum" where
  "js_mul (Fin a) (Fin b) = Fin (a * b)"
| "js_mul _ _ = NaN"

text \<open>
  The source divides by the non-zero literals \<^verbatim>\<open>2\<close> and \<^verbatim>\<open>180\<close> only. Division by
  zero (an infinity in JavaScript) is outside the model and is given as \<open>NaN\<close>.
\<close>

fun js_div :: "jsnum \<Rightarrow> jsnum \<Rightarrow> jsnum" where
  "js_div (Fin a) (Fin b) = (if b = 0 then NaN else Fin (a / b))"
| "js_div _ _ = NaN"

text \<open>Comparisons with \<^verbatim>\<open>NaN\<close> are false.\<close>

fun js_lt :: "jsnum \<Rightarrow> jsnum \<Rightarrow> bool" where
  "js_lt (Fin a) (Fin b) = (a < b)"
| "js_lt _ _ = False"

fun js_gt :: "jsnum \<Rightarrow> jsnum \<Rightarrow> bool" where
  "js_gt (Fin a) (Fin b) = (a > b)"
| "js_gt _ _ = False"

text \<open>
  Strict equality \<^verbatim>\<open>===\<close> of two numeric properties: \<^verbatim>\<open>undefined === undefined\<close>
  holds, \<^verbatim>\<open>NaN === NaN\<close> does not.
\<close>

fun strict_eq :: "jsnum option \<Rightarrow> jsnum option \<Rightarrow> bool" where
  "strict_eq None None = True"
| "strict_eq (Some (Fin a)) (Some (Fin b)) = (a = b)"
| "strict_eq _ _ = False"

text \<open>\<^verbatim>\<open>Math.min\<close>, \<^verbatim>\<open>Math.sin\<close>, \<^verbatim>\<open>Math.cos\<close>, \<^verbatim>\<open>Math.sqrt\<close>, \<^verbatim>\<open>Math.atan2\<close>.\<close>

fun js_min :: "jsnum \<Rightarrow> jsnum \<Rightarrow> jsnum" where
  "js_min (Fin a) (Fin b) = Fin (min a b)"
| "js_min _ _ = NaN"

fun js_sin :: "jsnum \<Rightarrow> jsnum" where
  "js_sin (Fin a) = Fin (sin a)"
| "js_sin NaN = NaN"

fun js_cos :: "jsnum \<Rightarrow> jsnum" where
  "js_cos (Fin a) = Fin (cos a)"
| "js_cos NaN = NaN"

fun js_sqrt :: "jsnum \<Rightarrow> jsnum" where
  "js_sqrt (Fin a) = (if a < 0 then NaN else Fin (sqrt a))"
| "js_sqrt NaN = NaN"

definition atan2 :: "real \<Rightarrow> real \<Rightarrow> real" where
  "atan2 y x =
     (if 0 < x then arctan (y / x)
      else if x < 0 \<and> 0 \<le> y then arctan (y / x) + pi
      else if x < 0 then arctan (y / x) - pi
      else if 0 < y then pi / 2
      else if y < 0 then - (pi / 2)
      else 0)"

fun js_atan2 :: "jsnum \<Rightarrow> jsnum \<Rightarrow> jsnum" where
  "js_atan2 (Fin y) (Fin x) = Fin (atan2 y x)"
| "js_atan2 _ _ = NaN"

text \<open>
  Truthiness of a string property and the operator \<^verbatim>\<open>||\<close>: \<^verbatim>\<open>undefined\<close> and the
  empty string are falsy, \<^verbatim>\<open>a || b\<close> is \<open>a\<close> when \<open>a\<close> is truthy and \<open>b\<close> otherwise.
\<close>

fun truthy :: "string option \<Rightarrow> bool" where
  "truthy None = False"
| "truthy (Some s) = (s \<noteq> [])"

definition js_or :: "string option \<Rightarrow> string option \<Rightarrow> string option" where
  "js_or a b = (if truthy a then a else b)"

section \<open>Reports and fused entities\<close>

text \<open>
  A report is one element of a source's \<^verbatim>\<open>aircraft\<close> array, with the properties the
  worker reads. \<open>source\<close> and \<open>priority\<close> are set by \<open>processAircraftData\<close>. Properties
  the worker never names (for instance \<^verbatim>\<open>baroAltitude\<close> of an OpenSky state) are left
  out. The type \<open>'n\<close> is the type of the values of the numeric properties: \<open>jsnum\<close> here.
\<close>

record 'n report_of =
  icao24 :: "string option"
  callsign :: "string option"
  latitude :: "'n option"
  longitude :: "'n option"
  altitude :: "'n option"
  velocity :: "'n option"
  heading :: "'n option"
  origin :: "string option"
  destination :: "string option"
  source :: "string option"
  priority :: "'n option"
  timestamp :: "'n option"

type_synonym report = "jsnum report_of"

text \<open>
  A fused entity is the object \<open>fuseAircraftData\<close> builds: the twelve properties above and
  \<open>confidence\<close>.
\<close>

record 'n entity_of = "'n report_of" +
  confidence :: jsnum

type_synonym entity = "jsnum entity_of"

text \<open>
  \<^verbatim>\<open>Object.assign(existing, aircraft)\<close> copies the own properties of \<open>aircraft\<close>: a
  property the report carries replaces the entity's, a property it does not carry leaves the
  entity's value as it was. (A \<^verbatim>\<open>confidence\<close> property of a report would be copied too;
  the source overwrites it with \<^verbatim>\<open>1.0\<close> in the next statement. A property carried with
  the value \<^verbatim>\<open>undefined\<close> or \<^verbatim>\<open>null\<close> would be copied as well; such properties are
  outside the model, where \<open>None\<close> is always an absent property.)
\<close>

definition assign_prop :: "'a option \<Rightarrow> 'a option \<Rightarrow> 'a option" where
  "assign_prop old new = (case new of None \<Rightarrow> old | Some v \<Rightarrow> Some v)"

definition object_assign :: "'n entity_of \<Rightarrow> 'n report_of \<Rightarrow> 'n entity_of" where
  "object_assign existing aircraft =
     existing\<lparr>
       icao24 := assign_prop (icao24 existing) (icao24 aircraft),
       callsign := assign_prop (callsign existing) (callsign aircraft),
       latitude := assign_prop (latitude existing) (latitude aircraft),
       longitude := assign_prop (longitude existing) (longitude aircraft),
       altitude := assign_prop (altitude existing) (altitude aircraft),
       velocity := assign_prop (velocity existing) (velocity aircraft),
       heading := assign_prop (heading existing) (heading aircraft),
       origin := assign_prop (origin existing) (origin aircraft),
       destination := assign_prop (destination existing) (destination aircraft),
       source := assign_prop (source existing) (source aircraft),
       priority := assign_prop (priority existing) (priority aircraft),
       timestamp := assign_prop (timestamp existing) (timestamp aircraft)\<rparr>"

text \<open>
  The key \<^verbatim>\<open>aircraft.icao24 || aircraft.callsign\<close>, which \<open>fuseAircraftData\<close>,
  \<open>removeDuplicates\<close> and \<open>updateCache\<close> each compute, of a report or of an entity.
\<close>

definition key_of :: "('n, 'a) report_of_scheme \<Rightarrow> string option" where
  "key_of aircraft = js_or (icao24 aircraft) (callsign aircraft)"

section \<open>fuseAircraftData\<close>

text \<open>
  \<open>fusedMap\<close> is a JavaScript \<^verbatim>\<open>Map\<close>: an association list in insertion order, where
  \<^verbatim>\<open>set\<close> on a key already present keeps its position (\<open>AList.update\<close>).
\<close>

definition seed :: "'n report_of \<Rightarrow> 'n entity_of" where
  "seed aircraft =
     \<lparr>icao24 = icao24 aircraft,
      callsign = callsign aircraft,
      latitude = latitude aircraft,
      longitude = longitude aircraft,
      altitude = altitude aircraft,
      velocity = velocity aircraft,
      heading = heading aircraft,
      origin = origin aircraft,
      destination = destination aircraft,
      source = source aircraft,
      priority = priority aircraft,
      timestamp = timestamp aircraft,
      confidence = Fin 1\<rparr>"

definition average :: "jsnum option \<Rightarrow> jsnum option \<Rightarrow> jsnum option" where
  "average x y = Some (js_div (js_add (to_number x) (to_number y)) (Fin 2))"

definition merge_priority :: "entity \<Rightarrow> report \<Rightarrow> entity" where
  "merge_priority existing aircraft =
     (if js_gt (to_number (priority aircraft)) (to_number (priority existing))
      then (object_assign existing aircraft)\<lparr>confidence := Fin 1\<rparr>
      else if strict_eq (priority aircraft) (priority existing)
      then existing\<lparr>
             latitude := average (latitude existing) (latitude aircraft),
             longitude := average (longitude existing) (longitude aircraft),
             altitude := average (altitude existing) (altitude aircraft),
             velocity := average (velocity existing) (velocity aircraft),
             heading := average (heading existing) (heading aircraft),
             confidence := js_min (Fin 1) (js_add (confidence existing) (Fin (1 / 10)))\<rparr>
      else existing)"

definition merge_timestamp :: "entity \<Rightarrow> report \<Rightarrow> entity" where
  "merge_timestamp existing aircraft =
     (if js_gt (to_number (timestamp aircraft)) (to_number (timestamp existing))
      then existing\<lparr>timestamp := timestamp aircraft\<rparr>
      else existing)"

definition fuse_step :: "report \<Rightarrow> (string option \<times> entity) list \<Rightarrow> (string option \<times> entity) list" where
  "fuse_step aircraft fusedMap =
     (let key = key_of aircraft in
      if \<not> truthy key then fusedMap
      else case map_of fusedMap key of
             None \<Rightarrow> AList.update key (seed aircraft) fusedMap
           | Some existing \<Rightarrow>
               AList.update key (merge_timestamp (merge_priority existing aircraft) aircraft) fusedMap)"

definition fuseAircraftData :: "report list \<Rightarrow> entity list" where
  "fuseAircraftData aircraft = map snd (fold fuse_step aircraft [])"

section \<open>calculateDistance and removeDuplicates\<close>

definition calculateDistance ::
  "jsnum option \<Rightarrow> jsnum option \<Rightarrow> jsnum option \<Rightarrow> jsnum option \<Rightarrow> jsnum" where
  "calculateDistance lat1 lon1 lat2 lon2 =
     (let R = Fin 6371;
          dLat = js_div (js_mul (js_sub (to_number lat2) (to_number lat1)) (Fin pi)) (Fin 180);
          dLon = js_div (js_mul (js_sub (to_number lon2) (to_number lon1)) (Fin pi)) (Fin 180);
          a = js_add
                (js_mul (js_sin (js_div dLat (Fin 2))) (js_sin (js_div dLat (Fin 2))))
                (js_mul
                  (js_mul
                    (js_mul (js_cos (js_div (js_mul (to_number lat1) (Fin pi)) (Fin 180)))
                            (js_cos (js_div (js_mul (to_number lat2) (Fin pi)) (Fin 180))))
                    (js_sin (js_div dLon (Fin 2))))
                  (js_sin (js_div dLon (Fin 2))));
          c = js_mul (Fin 2) (js_atan2 (js_sqrt a) (js_sqrt (js_sub (Fin 1) a)))
      in js_mul R c)"

definition near :: "entity \<Rightarrow> entity \<Rightarrow> bool" where
  "near existing aircraft =
     js_lt (calculateDistance (latitude existing) (longitude existing)
                              (latitude aircraft) (longitude aircraft)) (Fin 1)"

definition dedup_step ::
  "entity \<Rightarrow> entity list \<times> string option set \<Rightarrow> entity list \<times> string option set" where
  "dedup_step aircraft st =
     (let uniqueAircraft = fst st; processedKeys = snd st;
          key = key_of aircraft in
      if \<not> truthy key \<or> key \<in> processedKeys then st
      else let isDuplicate = list_ex (\<lambda>existing. near existing aircraft) uniqueAircraft in
           if \<not> isDuplicate then (uniqueAircraft @ [aircraft], insert key processedKeys)
           else st)"

definition removeDuplicates :: "entity list \<Rightarrow> entity list" where
  "removeDuplicates aircraft = fst (fold dedup_step aircraft ([], {}))"

section \<open>updateCache\<close>

text \<open>
  \<open>aircraftCache\<close> is a \<^verbatim>\<open>Map\<close> from keys to entities of which only the mapping and the
  size are observed: a partial function. \<open>now\<close> is the reading of \<^verbatim>\<open>Date.now()\<close>.
\<close>

type_synonym cache = "string option \<rightharpoonup> entity"

definition maxAge :: real where
  "maxAge = 30000"

definition expired :: "real \<Rightarrow> entity \<Rightarrow> bool" where
  "expired now v = js_gt (js_sub (Fin now) (to_number (timestamp v))) (Fin maxAge)"

definition sweep :: "real \<Rightarrow> cache \<Rightarrow> cache" where
  "sweep now c = (\<lambda>key. case c key of
                          None \<Rightarrow> None
                        | Some v \<Rightarrow> if expired now v then None else Some v)"

definition cache_set :: "entity \<Rightarrow> cache \<Rightarrow> cache" where
  "cache_set aircraft c =
     (let key = key_of aircraft in
      if truthy key then c(key \<mapsto> aircraft) else c)"

definition updateCache :: "real \<Rightarrow> entity list \<Rightarrow> cache \<Rightarrow> cache" where
  "updateCache now aircraft c = fold cache_set aircraft (sweep now c)"

section \<open>processAircraftData\<close>

text \<open>
  The message \<open>data\<close> is \<^verbatim>\<open>null\<close>/\<^verbatim>\<open>undefined\<close> (\<open>None\<close>) or an object with the three
  source properties. A source property is falsy or absent (\<open>NoSource\<close>) or an object, whose
  \<^verbatim>\<open>aircraft\<close> property is falsy or absent (\<open>NoAircraft\<close>), an array of reports, or a
  truthy value that has no \<^verbatim>\<open>forEach\<close> (\<open>NotAnArray\<close>).
\<close>

datatype 'r aircraft_prop_of = NoAircraft | AircraftArray "'r list" | NotAnArray

datatype 'r source_prop_of = NoSource | SourceObject "'r aircraft_prop_of"

record 'r snapshot_of =
  local :: "'r source_prop_of"
  openSky :: "'r source_prop_of"
  flightradar :: "'r source_prop_of"

type_synonym aircraft_prop = "report aircraft_prop_of"

type_synonym source_prop = "report source_prop_of"

type_synonym snapshot = "report snapshot_of"

datatype js_error = TypeError

text \<open>The object literal \<^verbatim>\<open>{...aircraft, source: s, priority: p}\<close>.\<close>

definition tag :: "string \<Rightarrow> real \<Rightarrow> report \<Rightarrow> report" where
  "tag s p aircraft = aircraft\<lparr>source := Some s, priority := Some (Fin p)\<rparr>"

text \<open>
  One of the three blocks \<^verbatim>\<open>if (data.x && data.x.aircraft) { data.x.aircraft.forEach(...) }\<close>;
  calling \<^verbatim>\<open>forEach\<close> on a value that has none throws.
\<close>

fun collect :: "source_prop \<Rightarrow> string \<Rightarrow> real \<Rightarrow> report list \<Rightarrow> js_error + report list" where
  "collect NoSource s p allAircraft = Inr allAircraft"
| "collect (SourceObject NoAircraft) s p allAircraft = Inr allAircraft"
| "collect (SourceObject NotAnArray) s p allAircraft = Inl TypeError"
| "collect (SourceObject (AircraftArray xs)) s p allAircraft = Inr (allAircraft @ map (tag s p) xs)"

definition flatten :: "snapshot option \<Rightarrow> js_error + report list" where
  "flatten data =
     (case data of
        None \<Rightarrow> Inl TypeError
      | Some d \<Rightarrow>
          (case collect (local d) ''local'' 3 [] of
             Inl e \<Rightarrow> Inl e
           | Inr a1 \<Rightarrow>
               (case collect (openSky d) ''opensky'' 2 a1 of
                  Inl e \<Rightarrow> Inl e
                | Inr a2 \<Rightarrow> collect (flightradar d) ''flightradar24'' 1 a2)))"

text \<open>
  The statistics message, without its constant \<^verbatim>\<open>dataSource\<close> label.
  \<^verbatim>\<open>Math.round(x)\<close> is \<open>\<lfloor>x + 1/2\<rfloor>\<close>.
\<close>

record stats =
  latency :: int
  fps :: nat
  connected :: bool
  processedCount :: nat
  cacheSize :: nat

datatype 'e message_of = AircraftData "'e list" | SystemStats stats | ErrorMessage js_error

type_synonym message = "entity message_of"

text \<open>
  \<open>t0\<close> and \<open>t1\<close> are the two readings of \<^verbatim>\<open>performance.now()\<close>, \<open>now\<close> the reading of
  \<^verbatim>\<open>Date.now()\<close> in \<open>updateCache\<close>. The result is the list of posted messages and the
  cache after the call.
\<close>

definition processAircraftData ::
  "real \<Rightarrow> real \<Rightarrow> real \<Rightarrow> snapshot option \<Rightarrow> cache \<Rightarrow> message list \<times> cache" where
  "processAircraftData t0 t1 now data aircraftCache =
     (case flatten data of
        Inl e \<Rightarrow> ([ErrorMessage e], aircraftCache)
      | Inr allAircraft \<Rightarrow>
          (let fusedAircraft = fuseAircraftData allAircraft;
               cleanedAircraft = removeDuplicates fusedAircraft;
               aircraftCache' = updateCache now cleanedAircraft aircraftCache;
               processingTime = t1 - t0
           in ([AircraftData cleanedAircraft,
                SystemStats \<lparr>latency = \<lfloor>processingTime + 1 / 2\<rfloor>,
                             fps = 60,
                             connected = True,
                             processedCount = length cleanedAircraft,
                             cacheSize = card (dom aircraftCache')\<rparr>],
               aircraftCache')))"

section \<open>The worker on values that cannot be converted\<close>

text \<open>
  The typed model above has no statement that throws after the snapshot is flattened. The
  worker itself can throw there: a numeric property of a received report may hold an object
  that has no callable \<^verbatim>\<open>valueOf\<close> or \<^verbatim>\<open>toString\<close> (as the JSON text
  \<^verbatim>\<open>{"valueOf":0,"toString":0}\<close> gives). Reading and copying such a value, and
  \<^verbatim>\<open>===\<close>, do not throw; every arithmetic operator and every relational comparison
  applied to it throws a \<^verbatim>\<open>TypeError\<close>. This section models the same functions over
  reports whose numeric properties are absent, numbers, or such a value, with the
  \<^verbatim>\<open>Map\<close> \<open>aircraftCache\<close> as an association list in insertion order.
\<close>

datatype rawnum = Number jsnum | Unconvertible

type_synonym raw_report = "rawnum report_of"

type_synonym raw_entity = "rawnum entity_of"

text \<open>The conversion an operator applies to its operand before it computes.\<close>

fun to_primitive :: "rawnum option \<Rightarrow> js_error + jsnum option" where
  "to_primitive None = Inr None"
| "to_primitive (Some (Number n)) = Inr (Some n)"
| "to_primitive (Some Unconvertible) = Inl TypeError"

text \<open>Sequencing of statements that may throw.\<close>

fun try_bind :: "js_error + 'a \<Rightarrow> ('a \<Rightarrow> js_error + 'b) \<Rightarrow> js_error + 'b" where
  "try_bind (Inl e) f = Inl e"
| "try_bind (Inr v) f = f v"

text \<open>\<^verbatim>\<open>x > y\<close>, \<^verbatim>\<open>(x + y) / 2\<close> and \<^verbatim>\<open>x === y\<close> on received values.\<close>

definition gt_raw :: "rawnum option \<Rightarrow> rawnum option \<Rightarrow> js_error + bool" where
  "gt_raw x y =
     try_bind (to_primitive x) (\<lambda>a.
     try_bind (to_primitive y) (\<lambda>b.
       Inr (js_gt (to_number a) (to_number b))))"

definition average_raw :: "rawnum option \<Rightarrow> rawnum option \<Rightarrow> js_error + rawnum option" where
  "average_raw x y =
     try_bind (to_primitive x) (\<lambda>a.
     try_bind (to_primitive y) (\<lambda>b.
       Inr (map_option Number (average a b))))"

fun strict_eq_raw :: "rawnum option \<Rightarrow> rawnum option \<Rightarrow> bool" where
  "strict_eq_raw None None = True"
| "strict_eq_raw (Some (Number a)) (Some (Number b)) = strict_eq (Some a) (Some b)"
| "strict_eq_raw _ _ = False"

text \<open>\<^verbatim>\<open>forEach\<close> and \<^verbatim>\<open>some\<close> with a callback that may throw.\<close>

fun forEach :: "('a \<Rightarrow> 's \<Rightarrow> js_error + 's) \<Rightarrow> 'a list \<Rightarrow> 's \<Rightarrow> js_error + 's" where
  "forEach f [] s = Inr s"
| "forEach f (x # xs) s = try_bind (f x s) (forEach f xs)"

fun array_some :: "('a \<Rightarrow> js_error + bool) \<Rightarrow> 'a list \<Rightarrow> js_error + bool" where
  "array_some p [] = Inr False"
| "array_some p (x # xs) = try_bind (p x) (\<lambda>b. if b then Inr True else array_some p xs)"

subsection \<open>fuseAircraftData\<close>

definition merge_priority_raw :: "raw_entity \<Rightarrow> raw_report \<Rightarrow> js_error + raw_entity" where
  "merge_priority_raw existing aircraft =
     try_bind (gt_raw (priority aircraft) (priority existing)) (\<lambda>higher.
       if higher then Inr ((object_assign existing aircraft)\<lparr>confidence := Fin 1\<rparr>)
       else if strict_eq_raw (priority aircraft) (priority existing) then
         try_bind (average_raw (latitude existing) (latitude aircraft)) (\<lambda>lat.
         try_bind (average_raw (longitude existing) (longitude aircraft)) (\<lambda>lon.
         try_bind (average_raw (altitude existing) (altitude aircraft)) (\<lambda>alt.
         try_bind (average_raw (velocity existing) (velocity aircraft)) (\<lambda>vel.
         try_bind (average_raw (heading existing) (heading aircraft)) (\<lambda>hdg.
           Inr (existing\<lparr>
                  latitude := lat, longitude := lon, altitude := alt,
                  velocity := vel, heading := hdg,
                  confidence := js_min (Fin 1) (js_add (confidence existing) (Fin (1 / 10)))\<rparr>))))))
       else Inr existing)"

definition merge_timestamp_raw :: "raw_entity \<Rightarrow> raw_report \<Rightarrow> js_error + raw_entity" where
  "merge_timestamp_raw existing aircraft =
     try_bind (gt_raw (timestamp aircraft) (timestamp existing)) (\<lambda>newer.
       Inr (if newer then existing\<lparr>timestamp := timestamp aircraft\<rparr> else existing))"

definition fuse_step_raw ::
  "raw_report \<Rightarrow> (string option \<times> raw_entity) list \<Rightarrow> js_error + (string option \<times> raw_entity) list" where
  "fuse_step_raw aircraft fusedMap =
     (let key = key_of aircraft in
      if \<not> truthy key then Inr fusedMap
      else case map_of fusedMap key of
             None \<Rightarrow> Inr (AList.update key (seed aircraft) fusedMap)
           | Some existing \<Rightarrow>
               try_bind (merge_priority_raw existing aircraft) (\<lambda>merged.
               try_bind (merge_timestamp_raw merged aircraft) (\<lambda>stamped.
                 Inr (AList.update key stamped fusedMap))))"

definition fuseAircraftData_raw :: "raw_report list \<Rightarrow> js_error + raw_entity list" where
  "fuseAircraftData_raw aircraft =
     try_bind (forEach fuse_step_raw aircraft []) (\<lambda>fusedMap. Inr (map snd fusedMap))"

subsection \<open>calculateDistance and removeDuplicates\<close>

text \<open>
  \<open>calculateDistance\<close> converts \<open>lat2\<close> and \<open>lat1\<close> in its first statement and \<open>lon2\<close> and
  \<open>lon1\<close> in its second; from there on it computes with numbers.
\<close>

definition calculateDistance_raw ::
  "rawnum option \<Rightarrow> rawnum option \<Rightarrow> rawnum option \<Rightarrow> rawnum option \<Rightarrow> js_error + jsnum" where
  "calculateDistance_raw lat1 lon1 lat2 lon2 =
     try_bind (to_primitive lat2) (\<lambda>la2.
     try_bind (to_primitive lat1) (\<lambda>la1.
     try_bind (to_primitive lon2) (\<lambda>lo2.
     try_bind (to_primitive lon1) (\<lambda>lo1.
       Inr (calculateDistance la1 lo1 la2 lo2)))))"

definition near_raw :: "raw_entity \<Rightarrow> raw_entity \<Rightarrow> js_error + bool" where
  "near_raw existing aircraft =
     try_bind (calculateDistance_raw (latitude existing) (longitude existing)
                                     (latitude aircraft) (longitude aircraft)) (\<lambda>distance.
       Inr (js_lt distance (Fin 1)))"

definition dedup_step_raw ::
  "raw_entity \<Rightarrow> raw_entity list \<times> string option set
     \<Rightarrow> js_error + raw_entity list \<times> string option set" where
  "dedup_step_raw aircraft st =
     (let uniqueAircraft = fst st; processedKeys = snd st;
          key = key_of aircraft in
      if \<not> truthy key \<or> key \<in> processedKeys then Inr st
      else try_bind (array_some (\<lambda>existing. near_raw existing aircraft) uniqueAircraft)
             (\<lambda>isDuplicate.
                if \<not> isDuplicate
                then Inr (uniqueAircraft @ [aircraft], insert key processedKeys)
                else Inr st))"

definition removeDuplicates_raw :: "raw_entity list \<Rightarrow> js_error + raw_entity list" where
  "removeDuplicates_raw aircraft =
     try_bind (forEach dedup_step_raw aircraft ([], {})) (\<lambda>st. Inr (fst st))"

subsection \<open>updateCache\<close>

text \<open>
  The sweep goes through the entries in insertion order and deletes the current entry when
  it is expired. \<^verbatim>\<open>now - value.timestamp\<close> throws on a timestamp that cannot be converted;
  the deletions made up to then stay, so the result is the outcome (an error or none)
  together with the cache as it then is. The insertions do not throw.
\<close>

type_synonym raw_cache = "(string option \<times> raw_entity) list"

fun sweep_raw :: "real \<Rightarrow> (string option \<times> raw_entity) list \<Rightarrow> raw_cache
                    \<Rightarrow> js_error option \<times> raw_cache" where
  "sweep_raw now [] c = (None, c)"
| "sweep_raw now ((key, value) # entries) c =
     (case to_primitive (timestamp value) of
        Inl e \<Rightarrow> (Some e, c)
      | Inr ts \<Rightarrow>
          if js_gt (js_sub (Fin now) (to_number ts)) (Fin maxAge)
          then sweep_raw now entries (AList.delete key c)
          else sweep_raw now entries c)"

definition cache_set_raw :: "raw_entity \<Rightarrow> raw_cache \<Rightarrow> raw_cache" where
  "cache_set_raw aircraft c =
     (let key = key_of aircraft in
      if truthy key then AList.update key aircraft c else c)"

definition updateCache_raw :: "real \<Rightarrow> raw_entity list \<Rightarrow> raw_cache \<Rightarrow> js_error option \<times> raw_cache" where
  "updateCache_raw now aircraft c =
     (case sweep_raw now c c of
        (Some e, c') \<Rightarrow> (Some e, c')
      | (None, c') \<Rightarrow> (None, fold cache_set_raw aircraft c'))"

subsection \<open>processAircraftData\<close>

definition tag_raw :: "string \<Rightarrow> real \<Rightarrow> raw_report \<Rightarrow> raw_report" where
  "tag_raw s p aircraft = aircraft\<lparr>source := Some s, priority := Some (Number (Fin p))\<rparr>"

fun collect_raw ::
  "raw_report source_prop_of \<Rightarrow> string \<Rightarrow> real \<Rightarrow> raw_report list \<Rightarrow> js_error + raw_report list" where
  "collect_raw NoSource s p allAircraft = Inr allAircraft"
| "collect_raw (SourceObject NoAircraft) s p allAircraft = Inr allAircraft"
| "collect_raw (SourceObject NotAnArray) s p allAircraft = Inl TypeError"
| "collect_raw (SourceObject (AircraftArray xs)) s p allAircraft =
     Inr (allAircraft @ map (tag_raw s p) xs)"

definition flatten_raw :: "raw_report snapshot_of option \<Rightarrow> js_error + raw_report list" where
  "flatten_raw data =
     (case data of
        None \<Rightarrow> Inl TypeError
      | Some d \<Rightarrow>
          try_bind (collect_raw (local d) ''local'' 3 []) (\<lambda>a1.
          try_bind (collect_raw (openSky d) ''opensky'' 2 a1) (\<lambda>a2.
            collect_raw (flightradar d) ''flightradar24'' 1 a2)))"

text \<open>
  The \<^verbatim>\<open>try\<close> block: an exception of any stage ends the cycle with the one error
  message; the cache is then as that stage left it.
\<close>

definition processAircraftData_raw ::
  "real \<Rightarrow> real \<Rightarrow> real \<Rightarrow> raw_report snapshot_of option \<Rightarrow> raw_cache
     \<Rightarrow> raw_entity message_of list \<times> raw_cache" where
  "processAircraftData_raw t0 t1 now data aircraftCache =
     (case flatten_raw data of
        Inl e \<Rightarrow> ([ErrorMessage e], aircraftCache)
      | Inr allAircraft \<Rightarrow>
     (case fuseAircraftData_raw allAircraft of
        Inl e \<Rightarrow> ([ErrorMessage e], aircraftCache)
      | Inr fusedAircraft \<Rightarrow>
     (case removeDuplicates_raw fusedAircraft of
        Inl e \<Rightarrow> ([ErrorMessage e], aircraftCache)
      | Inr cleanedAircraft \<Rightarrow>
     (case updateCache_raw now cleanedAircraft aircraftCache of
        (Some e, aircraftCache') \<Rightarrow> ([ErrorMessage e], aircraftCache')
      | (None, aircraftCache') \<Rightarrow>
          ([AircraftData cleanedAircraft,
            SystemStats \<lparr>latency = \<lfloor>t1 - t0 + 1 / 2\<rfloor>,
                         fps = 60,
                         connected = True,
                         processedCount = length cleanedAircraft,
                         cacheSize = length aircraftCache'\<rparr>],
           aircraftCache')))))"

subsection \<open>Typed reports as received reports\<close>

text \<open>
  A report, an entity or a snapshot of the typed model, read as a received one: every number
  is a number that can be converted.
\<close>

definition lift_report :: "report \<Rightarrow> raw_report" where
  "lift_report r = \<lparr>icao24 = icao24 r, callsign = callsign r,
     latitude = map_option Number (latitude r), longitude = map_option Number (longitude r),
     altitude = map_option Number (altitude r), velocity = map_option Number (velocity r),
     heading = map_option Number (heading r), origin = origin r, destination = destination r,
     source = source r, priority = map_option Number (priority r),
     timestamp = map_option Number (timestamp r)\<rparr>"

definition lift_entity :: "entity \<Rightarrow> raw_entity" where
  "lift_entity e = \<lparr>icao24 = icao24 e, callsign = callsign e,
     latitude = map_option Number (latitude e), longitude = map_option Number (longitude e),
     altitude = map_option Number (altitude e), velocity = map_option Number (velocity e),
     heading = map_option Number (heading e), origin = origin e, destination = destination e,
     source = source e, priority = map_option Number (priority e),
     timestamp = map_option Number (timestamp e), confidence = confidence e\<rparr>"

definition lift_snapshot :: "snapshot \<Rightarrow> raw_report snapshot_of" where
  "lift_snapshot d = \<lparr>local = map_source_prop_of lift_report (local d),
                       openSky = map_source_prop_of lift_report (openSky d),
                       flightradar = map_source_prop_of lift_report (flightradar d)\<rparr>"

section \<open>Example reports\<close>

text \<open>
  Two reports of one aircraft: a Flightradar24 report and a local report with an older
  timestamp. Then two OpenSky reports of another aircraft at positions (10.0, 20.0) and
  (10.0, 20.2).
\<close>

definition ex_low :: report where
  "ex_low = \<lparr>icao24 = Some ''4b1805'', callsign = Some ''IR123'',
     latitude = Some (Fin 10), longitude = Some (Fin 20), altitude = Some (Fin 9000),
     velocity = Some (Fin 400), heading = Some (Fin 90),
     origin = Some ''THR'', destination = Some ''IKA'',
     source = Some ''flightradar24'', priority = Some (Fin 1), timestamp = Some (Fin 2000)\<rparr>"

definition ex_local :: report where
  "ex_local = \<lparr>icao24 = Some ''4b1805'', callsign = Some ''IR123'',
     latitude = Some (Fin 11), longitude = Some (Fin 21), altitude = Some (Fin 9500),
     velocity = Some (Fin 410), heading = Some (Fin 95),
     origin = Some ''THR'', destination = Some ''IKA'',
     source = Some ''local'', priority = Some (Fin 3), timestamp = Some (Fin 1000)\<rparr>"

definition ex_sky1 :: report where
  "ex_sky1 = \<lparr>icao24 = Some ''a1b2c3'', callsign = None,
     latitude = Some (Fin 10), longitude = Some (Fin 20), altitude = Some (Fin 1000),
     velocity = Some (Fin 200), heading = Some (Fin 350),
     origin = None, destination = None,
     source = Some ''opensky'', priority = Some (Fin 2), timestamp = Some (Fin 5000)\<rparr>"

definition ex_sky2 :: report where
  "ex_sky2 = \<lparr>icao24 = Some ''a1b2c3'', callsign = None,
     latitude = Some (Fin 10), longitude = Some (Fin (202 / 10)), altitude = Some (Fin 1100),
     velocity = Some (Fin 220), heading = Some (Fin 10),
     origin = None, destination = None,
     source = Some ''opensky'', priority = Some (Fin 2), timestamp = Some (Fin 6000)\<rparr>"

text \<open>
  A report whose only identifier is an empty call sign; a report 0.0001 degrees north of
  the first one; a report 2 km north of the first one; a report whose latitude is
  \<^verbatim>\<open>NaN\<close>.
\<close>

definition ex_blank :: report where
  "ex_blank = \<lparr>icao24 = None, callsign = Some '''',
     latitude = Some (Fin 30), longitude = Some (Fin 40), altitude = Some (Fin 5000),
     velocity = Some (Fin 300), heading = Some (Fin 180),
     origin = None, destination = None,
     source = Some ''opensky'', priority = Some (Fin 2), timestamp = Some (Fin 7000)\<rparr>"

definition ex_near :: report where
  "ex_near = \<lparr>icao24 = Some ''c0ffee'', callsign = Some ''WZ456'',
     latitude = Some (Fin (100001 / 10000)), longitude = Some (Fin 20), altitude = Some (Fin 9100),
     velocity = Some (Fin 405), heading = Some (Fin 91),
     origin = None, destination = None,
     source = Some ''opensky'', priority = Some (Fin 2), timestamp = Some (Fin 2500)\<rparr>"

definition ex_far :: report where
  "ex_far = \<lparr>icao24 = Some ''abcdef'', callsign = Some ''EP789'',
     latitude = Some (Fin (10 + 360 / (6371 * pi))), longitude = Some (Fin 20),
     altitude = Some (Fin 9100),
     velocity = Some (Fin 405), heading = Some (Fin 91),
     origin = None, destination = None,
     source = Some ''opensky'', priority = Some (Fin 2), timestamp = Some (Fin 2500)\<rparr>"

definition ex_nan :: report where
  "ex_nan = \<lparr>icao24 = Some ''0000aa'', callsign = None,
     latitude = Some NaN, longitude = Some (Fin 20), altitude = Some (Fin 9100),
     velocity = Some (Fin 405), heading = Some (Fin 91),
     origin = None, destination = None,
     source = Some ''opensky'', priority = Some (Fin 2), timestamp = Some (Fin 2500)\<rparr>"

text \<open>
  For a cycle at \<open>now = 100000\<close>: a cache holding an entity last seen 31000 ms ago, one
  last seen 29000 ms ago and the Flightradar24 entity above; a snapshot without reports.
\<close>

definition ex_old :: report where
  "ex_old = \<lparr>icao24 = Some ''01d001'', callsign = Some ''TK012'',
     latitude = Some (Fin 35), longitude = Some (Fin 51), altitude = Some (Fin 3000),
     velocity = Some (Fin 250), heading = Some (Fin 270),
     origin = None, destination = None,
     source = Some ''local'', priority = Some (Fin 3), timestamp = Some (Fin 69000)\<rparr>"

definition ex_fresh :: report where
  "ex_fresh = \<lparr>icao24 = Some ''f4e5b0'', callsign = Some ''LH345'',
     latitude = Some (Fin 36), longitude = Some (Fin 52), altitude = Some (Fin 3500),
     velocity = Some (Fin 260), heading = Some (Fin 280),
     origin = None, destination = None,
     source = Some ''local'', priority = Some (Fin 3), timestamp = Some (Fin 71000)\<rparr>"

definition ex_cache :: cache where
  "ex_cache = [Some ''01d001'' \<mapsto> seed ex_old, Some ''f4e5b0'' \<mapsto> seed ex_fresh,
               Some ''4b1805'' \<mapsto> seed ex_low]"












section \<open>Fusion of two reports with one key\<close>

lemma fuse_single:
  "truthy (key_of r1) \<Longrightarrow> fold fuse_step [r1] [] = [(key_of r1, seed r1)]"
  by (simp add: fuse_step_def)

lemma fuse_pair:
  assumes "truthy (key_of r1)" and "key_of r2 = key_of r1"
  shows "fuseAircraftData [r1, r2] = [merge_timestamp (merge_priority (seed r1) r2) r2]"
  using assms by (simp add: fuseAircraftData_def fuse_step_def)

lemma seed_sel:
  "latitude (seed r) = latitude r" "longitude (seed r) = longitude r"
  "altitude (seed r) = altitude r" "velocity (seed r) = velocity r"
  "heading (seed r) = heading r" "priority (seed r) = priority r"
  "timestamp (seed r) = timestamp r" "confidence (seed r) = Fin 1"
  "icao24 (seed r) = icao24 r" "callsign (seed r) = callsign r"
  by (simp_all add: seed_def)

lemma merge_timestamp_sel:
  "latitude (merge_timestamp e r) = latitude e" "longitude (merge_timestamp e r) = longitude e"
  "altitude (merge_timestamp e r) = altitude e" "velocity (merge_timestamp e r) = velocity e"
  "heading (merge_timestamp e r) = heading e" "priority (merge_timestamp e r) = priority e"
  "confidence (merge_timestamp e r) = confidence e"
  "icao24 (merge_timestamp e r) = icao24 e" "callsign (merge_timestamp e r) = callsign e"
  by (simp_all add: merge_timestamp_def)

lemma merge_priority_ignore:
  "priority e = Some (Fin p) \<Longrightarrow> priority r = Some (Fin q) \<Longrightarrow> q < p \<Longrightarrow> merge_priority e r = e"
  by (simp add: merge_priority_def)

lemma merge_priority_override:
  "priority e = Some (Fin p) \<Longrightarrow> priority r = Some (Fin q) \<Longrightarrow> p < q \<Longrightarrow>
   merge_priority e r = (object_assign e r)\<lparr>confidence := Fin 1\<rparr>"
  by (simp add: merge_priority_def)

lemma ex_keys:
  "key_of ex_low = Some ''4b1805''" "key_of ex_local = Some ''4b1805''"
  by (simp_all add: key_of_def js_or_def ex_low_def ex_local_def)

text \<open>
  C1. Two reports have the same truthy key and priorities 3 and 1, and the priority-3
  report carries a latitude, a longitude, an altitude and a heading. In either arrival
  order the fused entity has the priority-3 report's latitude, longitude, altitude and
  heading, and confidence 1.0: the later priority-1 report is ignored, the later priority-3
  report overrides.
\<close>

theorem fuse_priority_override:
  assumes "truthy (key_of hi)" and "key_of lo = key_of hi"
    and "priority hi = Some (Fin 3)" and "priority lo = Some (Fin 1)"
    and "latitude hi \<noteq> None" and "longitude hi \<noteq> None"
    and "altitude hi \<noteq> None" and "heading hi \<noteq> None"
  shows "(\<exists>e. fuseAircraftData [hi, lo] = [e] \<and>
            latitude e = latitude hi \<and> longitude e = longitude hi \<and>
            altitude e = altitude hi \<and> heading e = heading hi \<and> confidence e = Fin 1) \<and>
         (\<exists>e. fuseAircraftData [lo, hi] = [e] \<and>
            latitude e = latitude hi \<and> longitude e = longitude hi \<and>
            altitude e = altitude hi \<and> heading e = heading hi \<and> confidence e = Fin 1)"
proof
  have "merge_priority (seed hi) lo = seed hi"
    using assms(3,4) by (simp add: merge_priority_ignore seed_sel)
  then show "\<exists>e. fuseAircraftData [hi, lo] = [e] \<and>
            latitude e = latitude hi \<and> longitude e = longitude hi \<and>
            altitude e = altitude hi \<and> heading e = heading hi \<and> confidence e = Fin 1"
    using assms(1,2) by (simp add: fuse_pair merge_timestamp_sel seed_sel)
next
  have "merge_priority (seed lo) hi = (object_assign (seed lo) hi)\<lparr>confidence := Fin 1\<rparr>"
    using assms(3,4) by (simp add: merge_priority_override seed_sel)
  then show "\<exists>e. fuseAircraftData [lo, hi] = [e] \<and>
            latitude e = latitude hi \<and> longitude e = longitude hi \<and>
            altitude e = altitude hi \<and> heading e = heading hi \<and> confidence e = Fin 1"
    using assms(1,2,5-8)
    by (auto simp add: fuse_pair[of lo hi] merge_timestamp_sel seed_sel object_assign_def assign_prop_def)
qed

theorem fuse_priority_override_witness:
  "truthy (key_of ex_local) \<and> key_of ex_low = key_of ex_local \<and>
   priority ex_local = Some (Fin 3) \<and> priority ex_low = Some (Fin 1) \<and>
   map latitude (fuseAircraftData [ex_local, ex_low]) = [Some (Fin 11)] \<and>
   map heading (fuseAircraftData [ex_local, ex_low]) = [Some (Fin 95)] \<and>
   map latitude (fuseAircraftData [ex_low, ex_local]) = [Some (Fin 11)] \<and>
   map longitude (fuseAircraftData [ex_low, ex_local]) = [Some (Fin 21)] \<and>
   map altitude (fuseAircraftData [ex_low, ex_local]) = [Some (Fin 9500)] \<and>
   map heading (fuseAircraftData [ex_low, ex_local]) = [Some (Fin 95)] \<and>
   map confidence (fuseAircraftData [ex_low, ex_local]) = [Fin 1]"
proof -
  have h: "truthy (key_of ex_local)" "key_of ex_low = key_of ex_local"
    "priority ex_local = Some (Fin 3)" "priority ex_low = Some (Fin 1)"
    "latitude ex_local \<noteq> None" "longitude ex_local \<noteq> None"
    "altitude ex_local \<noteq> None" "heading ex_local \<noteq> None"
    by (simp_all add: ex_keys) (simp_all add: ex_low_def ex_local_def)
  have v: "latitude ex_local = Some (Fin 11)" "longitude ex_local = Some (Fin 21)"
    "altitude ex_local = Some (Fin 9500)" "heading ex_local = Some (Fin 95)"
    by (simp_all add: ex_local_def)
  from fuse_priority_override[OF h] v h show ?thesis
    by auto
qed

lemma merge_timestamp_max:
  assumes "priority e = Some (Fin p)" and "priority r = Some (Fin q)" and "q \<le> p"
    and "timestamp e = Some (Fin t)" and "timestamp r = Some (Fin u)"
  shows "timestamp (merge_timestamp (merge_priority e r) r) = Some (Fin (max t u))"
proof -
  have "timestamp (merge_priority e r) = Some (Fin t)"
    using assms(1-4) by (simp add: merge_priority_def)
  then show ?thesis
    using assms(5) by (simp add: merge_timestamp_def max_def)
qed

text \<open>
  C3. The claim is that the fused timestamp is the maximum of the existing and the incoming
  timestamp in every branch. In the override branch \<^verbatim>\<open>Object.assign\<close> has already
  replaced \<^verbatim>\<open>existing.timestamp\<close> by the incoming one when the comparison under the
  comment "Update timestamp to most recent" runs: a priority-3 report stamped 1000 arriving
  after a priority-1 report stamped 2000 leaves the fused timestamp at 1000. (In the other
  two branches the maximum is kept: \<open>merge_timestamp_max\<close>.)
\<close>

theorem fuse_timestamp_override_regresses:
  "timestamp ex_low = Some (Fin 2000) \<and> timestamp ex_local = Some (Fin 1000) \<and>
   map timestamp (fuseAircraftData [ex_low, ex_local]) = [Some (Fin 1000)]"
proof -
  have k: "truthy (key_of ex_low)" "key_of ex_local = key_of ex_low"
    by (simp_all add: ex_keys)
  have m: "merge_priority (seed ex_low) ex_local = (object_assign (seed ex_low) ex_local)\<lparr>confidence := Fin 1\<rparr>"
    by (rule merge_priority_override[where p = 1 and q = 3])
       (simp_all add: seed_sel ex_low_def ex_local_def)
  have "timestamp (object_assign (seed ex_low) ex_local) = Some (Fin 1000)"
    by (simp add: object_assign_def assign_prop_def ex_local_def)
  then show ?thesis
    by (simp add: fuse_pair[OF k] m merge_timestamp_def)
       (simp add: ex_low_def ex_local_def)
qed

lemma average_Fin: "average (Some (Fin a)) (Some (Fin b)) = Some (Fin ((a + b) / 2))"
  by (simp add: average_def)

lemma merge_priority_equal:
  "priority e = Some (Fin p) \<Longrightarrow> priority r = Some (Fin p) \<Longrightarrow>
   merge_priority e r =
     e\<lparr>latitude := average (latitude e) (latitude r),
       longitude := average (longitude e) (longitude r),
       altitude := average (altitude e) (altitude r),
       velocity := average (velocity e) (velocity r),
       heading := average (heading e) (heading r),
       confidence := js_min (Fin 1) (js_add (confidence e) (Fin (1 / 10)))\<rparr>"
  by (simp add: merge_priority_def)

text \<open>
  C2. Two reports have the same truthy key and the same priority. The fused entity's
  latitude, longitude, altitude, velocity and heading are each the arithmetic mean of the two
  reports' numbers, and its confidence is 1.0 plus 0.1 capped at 1.0.
\<close>

theorem fuse_equal_priority_average:
  assumes "truthy (key_of r1)" and "key_of r2 = key_of r1"
    and "priority r1 = Some (Fin p)" and "priority r2 = Some (Fin p)"
  shows "\<exists>e. fuseAircraftData [r1, r2] = [e] \<and>
     (\<forall>a b. latitude r1 = Some (Fin a) \<and> latitude r2 = Some (Fin b)
        \<longrightarrow> latitude e = Some (Fin ((a + b) / 2))) \<and>
     (\<forall>a b. longitude r1 = Some (Fin a) \<and> longitude r2 = Some (Fin b)
        \<longrightarrow> longitude e = Some (Fin ((a + b) / 2))) \<and>
     (\<forall>a b. altitude r1 = Some (Fin a) \<and> altitude r2 = Some (Fin b)
        \<longrightarrow> altitude e = Some (Fin ((a + b) / 2))) \<and>
     (\<forall>a b. velocity r1 = Some (Fin a) \<and> velocity r2 = Some (Fin b)
        \<longrightarrow> velocity e = Some (Fin ((a + b) / 2))) \<and>
     (\<forall>a b. heading r1 = Some (Fin a) \<and> heading r2 = Some (Fin b)
        \<longrightarrow> heading e = Some (Fin ((a + b) / 2))) \<and>
     confidence e = Fin (min 1 (1 + 1 / 10))"
proof -
  have "merge_priority (seed r1) r2 =
     (seed r1)\<lparr>latitude := average (latitude r1) (latitude r2),
       longitude := average (longitude r1) (longitude r2),
       altitude := average (altitude r1) (altitude r2),
       velocity := average (velocity r1) (velocity r2),
       heading := average (heading r1) (heading r2),
       confidence := js_min (Fin 1) (js_add (Fin 1) (Fin (1 / 10)))\<rparr>"
    using assms(3,4) merge_priority_equal[of "seed r1" p r2] by (simp add: seed_sel)
  then show ?thesis
    using assms(1,2) by (simp add: fuse_pair merge_timestamp_sel average_Fin)
qed

text \<open>
  The instance of the specification: priority 2, positions (10.0, 20.0) and (10.0, 20.2)
  fuse to longitude 20.1.
\<close>

theorem fuse_equal_priority_average_witness:
  "truthy (key_of ex_sky1) \<and> key_of ex_sky2 = key_of ex_sky1 \<and>
   priority ex_sky1 = Some (Fin 2) \<and> priority ex_sky2 = Some (Fin 2) \<and>
   map longitude (fuseAircraftData [ex_sky1, ex_sky2]) = [Some (Fin (201 / 10))] \<and>
   map latitude (fuseAircraftData [ex_sky1, ex_sky2]) = [Some (Fin 10)] \<and>
   map confidence (fuseAircraftData [ex_sky1, ex_sky2]) = [Fin 1]"
proof -
  have h: "truthy (key_of ex_sky1)" "key_of ex_sky2 = key_of ex_sky1"
    "priority ex_sky1 = Some (Fin 2)" "priority ex_sky2 = Some (Fin 2)"
    by (simp_all add: key_of_def js_or_def ex_sky1_def ex_sky2_def)
  have v: "longitude ex_sky1 = Some (Fin 20)" "longitude ex_sky2 = Some (Fin (202 / 10))"
    "latitude ex_sky1 = Some (Fin 10)" "latitude ex_sky2 = Some (Fin 10)"
    by (simp_all add: ex_sky1_def ex_sky2_def)
  from fuse_equal_priority_average[OF h] obtain e where
    e: "fuseAircraftData [ex_sky1, ex_sky2] = [e]"
    and lat: "\<forall>a b. latitude ex_sky1 = Some (Fin a) \<and> latitude ex_sky2 = Some (Fin b)
        \<longrightarrow> latitude e = Some (Fin ((a + b) / 2))"
    and lon: "\<forall>a b. longitude ex_sky1 = Some (Fin a) \<and> longitude ex_sky2 = Some (Fin b)
        \<longrightarrow> longitude e = Some (Fin ((a + b) / 2))"
    and c: "confidence e = Fin (min 1 (1 + 1 / 10))"
    by blast
  from lat v have "latitude e = Some (Fin ((10 + 10) / 2))" by blast
  moreover from lon v have "longitude e = Some (Fin ((20 + 202 / 10) / 2))" by blast
  ultimately show ?thesis
    using e c h by simp
qed

section \<open>Confidence\<close>

lemma update_values:
  "(k', e) \<in> set (AList.update k v al) \<Longrightarrow> e = v \<or> (k', e) \<in> set al"
  by (induction al) (auto split: if_splits)

lemma merge_priority_confidence:
  "confidence e = Fin 1 \<Longrightarrow> confidence (merge_priority e r) = Fin 1"
  by (simp add: merge_priority_def object_assign_def)

lemma fuse_step_confidence:
  assumes "\<forall>(k, e) \<in> set m. confidence e = Fin 1"
  shows "\<forall>(k, e) \<in> set (fuse_step r m). confidence e = Fin 1"
proof (cases "truthy (key_of r)")
  case False
  then show ?thesis using assms by (simp add: fuse_step_def)
next
  case True
  show ?thesis
  proof (cases "map_of m (key_of r)")
    case None
    then show ?thesis
      using True assms by (auto simp: fuse_step_def seed_sel dest!: update_values)
  next
    case (Some existing)
    then have "(key_of r, existing) \<in> set m" by (rule map_of_SomeD)
    then have "confidence existing = Fin 1" using assms by auto
    then have "confidence (merge_timestamp (merge_priority existing r) r) = Fin 1"
      by (simp add: merge_timestamp_sel merge_priority_confidence)
    then show ?thesis
      using True Some assms by (auto simp: fuse_step_def dest!: update_values)
  qed
qed

lemma fold_fuse_step_confidence:
  "\<forall>(k, e) \<in> set m. confidence e = Fin 1 \<Longrightarrow>
   \<forall>(k, e) \<in> set (fold fuse_step rs m). confidence e = Fin 1"
proof (induction rs arbitrary: m)
  case Nil
  then show ?case by simp
next
  case (Cons r rs)
  from Cons.prems have "\<forall>(k, e) \<in> set (fuse_step r m). confidence e = Fin 1"
    by (rule fuse_step_confidence)
  then show ?case using Cons.IH by simp
qed

text \<open>
  C9. Every entity that \<open>fuseAircraftData\<close> returns has confidence exactly 1.0, whatever
  the reports.
\<close>

theorem fuse_confidence_always_one:
  "\<forall>e \<in> set (fuseAircraftData aircraft). confidence e = Fin 1"
proof -
  have "\<forall>(k, e) \<in> set (fold fuse_step aircraft []). confidence e = Fin 1"
    by (rule fold_fuse_step_confidence) simp
  then show ?thesis
    by (auto simp: fuseAircraftData_def)
qed

theorem fuse_confidence_always_one_witness:
  "map confidence (fuseAircraftData [ex_low, ex_local]) = [Fin 1]"
proof -
  have k: "truthy (key_of ex_low)" "key_of ex_local = key_of ex_low"
    by (simp_all add: ex_keys)
  from fuse_confidence_always_one[of "[ex_low, ex_local]"] show ?thesis
    unfolding fuse_pair[OF k] by simp
qed

section \<open>Reports without an identifier\<close>

lemma fuse_step_no_key: "\<not> truthy (key_of r) \<Longrightarrow> fuse_step r m = m"
  by (simp add: fuse_step_def)

lemma dedup_step_no_key: "\<not> truthy (key_of a) \<Longrightarrow> dedup_step a st = st"
  by (simp add: dedup_step_def)

lemma cache_set_no_key: "\<not> truthy (key_of a) \<Longrightarrow> cache_set a c = c"
  by (simp add: cache_set_def)

lemma empty_callsign_falsy:
  "icao24 r = None \<Longrightarrow> callsign r = Some [] \<Longrightarrow> \<not> truthy (key_of r)"
  by (simp add: key_of_def js_or_def)

text \<open>
  C10. A report without \<^verbatim>\<open>icao24\<close> whose call sign is the empty string has the falsy
  key \<^verbatim>\<open>""\<close>: \<open>fuseAircraftData\<close> drops it wherever it stands among the reports,
  and \<open>removeDuplicates\<close> and \<open>updateCache\<close> drop such an entity; the result is the one
  obtained when the call sign is absent too.
\<close>

theorem empty_callsign_dropped:
  assumes "icao24 r = None" and "callsign r = Some ''''"
    and "icao24 e = None" and "callsign e = Some ''''"
  shows "key_of r = Some '''' \<and> \<not> truthy (key_of r) \<and>
         fuseAircraftData (rs @ r # rs') = fuseAircraftData (rs @ rs') \<and>
         fuseAircraftData (rs @ r\<lparr>callsign := None\<rparr> # rs') = fuseAircraftData (rs @ rs') \<and>
         removeDuplicates (es @ e # es') = removeDuplicates (es @ es') \<and>
         removeDuplicates (es @ e\<lparr>callsign := None\<rparr> # es') = removeDuplicates (es @ es') \<and>
         updateCache now (es @ e # es') c = updateCache now (es @ es') c \<and>
         updateCache now (es @ e\<lparr>callsign := None\<rparr> # es') c = updateCache now (es @ es') c"
proof -
  have r: "\<not> truthy (key_of r)" using assms(1,2) by (rule empty_callsign_falsy)
  have e: "\<not> truthy (key_of e)" using assms(3,4) by (rule empty_callsign_falsy)
  have r0: "\<not> truthy (key_of (r\<lparr>callsign := None\<rparr>))"
    using assms(1) by (simp add: key_of_def js_or_def)
  have e0: "\<not> truthy (key_of (e\<lparr>callsign := None\<rparr>))"
    using assms(3) by (simp add: key_of_def js_or_def)
  have "key_of r = Some ''''" using assms(1,2) by (simp add: key_of_def js_or_def)
  moreover have "fuseAircraftData (rs @ r # rs') = fuseAircraftData (rs @ rs')"
    by (simp add: fuseAircraftData_def fuse_step_no_key[OF r])
  moreover have "fuseAircraftData (rs @ r\<lparr>callsign := None\<rparr> # rs') = fuseAircraftData (rs @ rs')"
    by (simp add: fuseAircraftData_def fuse_step_no_key[OF r0])
  moreover have "removeDuplicates (es @ e # es') = removeDuplicates (es @ es')"
    by (simp add: removeDuplicates_def dedup_step_no_key[OF e])
  moreover have "removeDuplicates (es @ e\<lparr>callsign := None\<rparr> # es') = removeDuplicates (es @ es')"
    by (simp add: removeDuplicates_def dedup_step_no_key[OF e0])
  moreover have "updateCache now (es @ e # es') c = updateCache now (es @ es') c"
    by (simp add: updateCache_def cache_set_no_key[OF e])
  moreover have "updateCache now (es @ e\<lparr>callsign := None\<rparr> # es') c = updateCache now (es @ es') c"
    by (simp add: updateCache_def cache_set_no_key[OF e0])
  ultimately show ?thesis using r by simp
qed

theorem empty_callsign_dropped_witness:
  "icao24 ex_blank = None \<and> callsign ex_blank = Some '''' \<and>
   fuseAircraftData [ex_blank] = [] \<and>
   removeDuplicates [seed ex_blank] = [] \<and>
   updateCache 8000 [seed ex_blank] Map.empty (Some '''') = None"
proof -
  have h: "icao24 ex_blank = None" "callsign ex_blank = Some ''''"
    "icao24 (seed ex_blank) = None" "callsign (seed ex_blank) = Some ''''"
    by (simp_all add: ex_blank_def seed_sel)
  from empty_callsign_dropped[OF h, of "[]" "[]" "[]" "[]" 8000 Map.empty] h show ?thesis
    by (simp add: fuseAircraftData_def removeDuplicates_def updateCache_def sweep_def)
qed

section \<open>Deduplication\<close>

lemma key_of_seed: "key_of (seed r) = key_of r"
  by (simp add: key_of_def seed_sel)

lemma ex_keys2:
  "key_of ex_near = Some ''c0ffee''" "key_of ex_far = Some ''abcdef''"
  "key_of ex_nan = Some ''0000aa''"
  by (simp_all add: key_of_def js_or_def ex_near_def ex_far_def ex_nan_def)

lemma dedup_step_keys:
  "snd st = key_of ` set (fst st) \<Longrightarrow> snd (dedup_step a st) = key_of ` set (fst (dedup_step a st))"
  by (auto simp: dedup_step_def Let_def)

lemma fold_dedup_step_keys:
  "snd st = key_of ` set (fst st) \<Longrightarrow>
   snd (fold dedup_step xs st) = key_of ` set (fst (fold dedup_step xs st))"
proof (induction xs arbitrary: st)
  case Nil
  then show ?case by simp
next
  case (Cons a xs)
  from Cons.prems have "snd (dedup_step a st) = key_of ` set (fst (dedup_step a st))"
    by (rule dedup_step_keys)
  then show ?case using Cons.IH by simp
qed

lemma processedKeys_eq:
  "snd (fold dedup_step xs ([], {})) = key_of ` set (removeDuplicates xs)"
  unfolding removeDuplicates_def by (rule fold_dedup_step_keys) simp

lemma removeDuplicates_snoc:
  "removeDuplicates (xs @ [a]) =
     (if \<not> truthy (key_of a) \<or> key_of a \<in> key_of ` set (removeDuplicates xs)
         \<or> (\<exists>e \<in> set (removeDuplicates xs). near e a)
      then removeDuplicates xs else removeDuplicates xs @ [a])"
proof -
  have "removeDuplicates (xs @ [a]) = fst (dedup_step a (fold dedup_step xs ([], {})))"
    by (simp add: removeDuplicates_def)
  also have "\<dots> = (if \<not> truthy (key_of a) \<or> key_of a \<in> snd (fold dedup_step xs ([], {}))
         \<or> (\<exists>e \<in> set (fst (fold dedup_step xs ([], {}))). near e a)
      then fst (fold dedup_step xs ([], {})) else fst (fold dedup_step xs ([], {})) @ [a])"
    by (simp add: dedup_step_def Let_def list_ex_iff)
  finally show ?thesis
    by (simp only: processedKeys_eq) (simp only: removeDuplicates_def)
qed

lemma removeDuplicates_pair:
  assumes "truthy (key_of e1)" and "truthy (key_of e2)" and "key_of e1 \<noteq> key_of e2"
  shows "removeDuplicates [e1, e2] = (if near e1 e2 then [e1] else [e1, e2])"
  using assms by (simp add: removeDuplicates_def dedup_step_def)

lemma removeDuplicates_single: "truthy (key_of e) \<Longrightarrow> removeDuplicates [e] = [e]"
  by (simp add: removeDuplicates_def dedup_step_def)

subsection \<open>Not-a-number positions\<close>

lemma js_NaN [simp]:
  "js_add x NaN = NaN" "js_sub x NaN = NaN" "js_mul x NaN = NaN" "js_div x NaN = NaN"
  "js_atan2 x NaN = NaN" "js_lt x NaN = False"
  by (cases x; simp)+

lemma calculateDistance_NaN:
  "to_number lat2 = NaN \<or> to_number lon2 = NaN \<Longrightarrow> calculateDistance lat1 lon1 lat2 lon2 = NaN"
  by (auto simp: calculateDistance_def Let_def)

lemma not_near_NaN:
  "to_number (latitude a) = NaN \<or> to_number (longitude a) = NaN \<Longrightarrow> \<not> near e a"
  by (simp add: near_def calculateDistance_NaN)

text \<open>
  C7. A candidate whose latitude or longitude is \<^verbatim>\<open>NaN\<close> is at distance \<^verbatim>\<open>NaN\<close>
  from every entity, so the test \<^verbatim>\<open>distance < 1.0\<close> is false for it; when its key is
  truthy and not yet accepted, it is accepted.
\<close>

theorem nan_position_never_proximity_duplicate:
  assumes "to_number (latitude a) = NaN \<or> to_number (longitude a) = NaN"
  shows "(\<forall>e. \<not> js_lt (calculateDistance (latitude e) (longitude e) (latitude a) (longitude a)) (Fin 1)) \<and>
         (truthy (key_of a) \<and> key_of a \<notin> key_of ` set (removeDuplicates xs)
            \<longrightarrow> removeDuplicates (xs @ [a]) = removeDuplicates xs @ [a])"
  using assms not_near_NaN[OF assms]
  by (simp add: removeDuplicates_snoc calculateDistance_NaN)

theorem nan_position_never_proximity_duplicate_witness:
  "to_number (latitude (seed ex_nan)) = NaN \<and>
   removeDuplicates [seed ex_low, seed ex_nan] = [seed ex_low, seed ex_nan]"
proof -
  have n: "to_number (latitude (seed ex_nan)) = NaN"
    by (simp add: seed_sel ex_nan_def)
  have k: "truthy (key_of (seed ex_low))" "truthy (key_of (seed ex_nan))"
    "key_of (seed ex_nan) \<noteq> key_of (seed ex_low)"
    by (simp_all add: key_of_seed ex_keys ex_keys2)
  have s: "removeDuplicates [seed ex_low] = [seed ex_low]"
    using k(1) by (rule removeDuplicates_single)
  have a: "to_number (latitude (seed ex_nan)) = NaN \<or> to_number (longitude (seed ex_nan)) = NaN"
    using n by simp
  have f: "key_of (seed ex_nan) \<notin> key_of ` set (removeDuplicates [seed ex_low])"
    using k(3) s by simp
  from nan_position_never_proximity_duplicate[OF a, of "[seed ex_low]"] k(2) f
  have "removeDuplicates ([seed ex_low] @ [seed ex_nan]) = removeDuplicates [seed ex_low] @ [seed ex_nan]"
    by blast
  then show ?thesis using n s by simp
qed

subsection \<open>The haversine distance of finite coordinates\<close>

lemma cos_half_sin: "cos (x::real) = 1 - 2 * (sin (x / 2))\<^sup>2"
  using cos_double_sin[of "x / 2"] by simp

lemma cos_cos_bounds:
  fixes p1 p2 :: real
  shows "- (sin ((p2 - p1) / 2))\<^sup>2 \<le> cos p1 * cos p2"
    and "cos p1 * cos p2 \<le> 1 - (sin ((p2 - p1) / 2))\<^sup>2"
proof -
  define S where "S = (sin ((p2 - p1) / 2))\<^sup>2"
  define C where "C = cos (p2 + p1)"
  have prod: "cos p1 * cos p2 = (cos (p2 - p1) + C) / 2"
    by (simp add: C_def cos_add cos_diff)
  have dbl: "cos (p2 - p1) = 1 - 2 * S"
    unfolding S_def by (rule cos_half_sin)
  have b: "- 1 \<le> C" "C \<le> 1" by (simp_all add: C_def)
  show "- (sin ((p2 - p1) / 2))\<^sup>2 \<le> cos p1 * cos p2"
    unfolding prod dbl S_def[symmetric] using b(1) by argo
  show "cos p1 * cos p2 \<le> 1 - (sin ((p2 - p1) / 2))\<^sup>2"
    unfolding prod dbl S_def[symmetric] using b(2) by argo
qed

lemma haversine_bounds:
  fixes p1 p2 L :: real
  defines "s \<equiv> (sin ((p2 - p1) / 2))\<^sup>2" and "t \<equiv> (sin (L / 2))\<^sup>2"
  shows "0 \<le> s + cos p1 * cos p2 * t"
    and "s + cos p1 * cos p2 * t \<le> 1"
    and "s + cos p1 * cos p2 * t \<le> s + t"
proof -
  have s: "0 \<le> s" "s \<le> 1" and t: "0 \<le> t" "t \<le> 1"
    by (simp_all add: s_def t_def abs_square_le_1)
  have lo: "- s \<le> cos p1 * cos p2" and hi: "cos p1 * cos p2 \<le> 1 - s"
    unfolding s_def by (rule cos_cos_bounds)+
  have "- s * t \<le> cos p1 * cos p2 * t"
    using lo t(1) by (rule mult_right_mono)
  moreover have "s * t \<le> s * 1"
    using s(1) t(2) by (intro mult_left_mono) simp_all
  ultimately show "0 \<le> s + cos p1 * cos p2 * t" by linarith
  have up: "cos p1 * cos p2 * t \<le> (1 - s) * t"
    using hi t(1) by (rule mult_right_mono)
  have "(1 - s) * t \<le> (1 - s) * 1"
    using s(2) t(2) by (intro mult_left_mono) simp_all
  then have "(1 - s) * t \<le> 1 - s" by simp
  with up show "s + cos p1 * cos p2 * t \<le> 1" by linarith
  have "(1 - s) * t \<le> 1 * t"
    using s(1) t(1) by (intro mult_right_mono) simp_all
  then have "(1 - s) * t \<le> t" by simp
  with up show "s + cos p1 * cos p2 * t \<le> s + t" by linarith
qed

lemma calculateDistance_finite:
  fixes la1 lo1 la2 lo2 :: real
  defines "a \<equiv> (sin ((la2 * pi / 180 - la1 * pi / 180) / 2))\<^sup>2 +
                 cos (la1 * pi / 180) * cos (la2 * pi / 180) * (sin (((lo2 - lo1) * pi / 180) / 2))\<^sup>2"
  shows "calculateDistance (Some (Fin la1)) (Some (Fin lo1)) (Some (Fin la2)) (Some (Fin lo2)) =
         Fin (6371 * (2 * atan2 (sqrt a) (sqrt (1 - a))))"
proof -
  have a0: "0 \<le> a" and a1: "a \<le> 1"
    unfolding a_def by (rule haversine_bounds)+
  have eq: "sin ((la2 - la1) * pi / 180 / 2) * sin ((la2 - la1) * pi / 180 / 2) +
        cos (la1 * pi / 180) * cos (la2 * pi / 180) * sin ((lo2 - lo1) * pi / 180 / 2)
          * sin ((lo2 - lo1) * pi / 180 / 2) = a"
    unfolding a_def by (simp add: power2_eq_square algebra_simps diff_divide_distrib)
  have "calculateDistance (Some (Fin la1)) (Some (Fin lo1)) (Some (Fin la2)) (Some (Fin lo2)) =
      js_mul (Fin 6371) (js_mul (Fin 2) (js_atan2 (js_sqrt (Fin a)) (js_sqrt (js_sub (Fin 1) (Fin a)))))"
    unfolding calculateDistance_def Let_def to_number.simps js_sub.simps js_mul.simps js_div.simps
      js_sin.simps js_cos.simps js_add.simps eq[symmetric]
    by simp
  also have "\<dots> = Fin (6371 * (2 * atan2 (sqrt a) (sqrt (1 - a))))"
    using a0 a1 by simp
  finally show ?thesis .
qed

lemma sin_sq_sum_le:
  fixes X Y :: real
  assumes "0 \<le> X" and "0 \<le> Y" and "X + Y \<le> pi / 2"
  shows "(sin X)\<^sup>2 + (sin Y)\<^sup>2 \<le> (sin (X + Y))\<^sup>2"
proof -
  define a b c d where "a = sin X" and "b = cos X" and "c = sin Y" and "d = cos Y"
  have pa: "a\<^sup>2 + b\<^sup>2 = 1" and pc: "c\<^sup>2 + d\<^sup>2 = 1"
    by (simp_all add: a_def b_def c_def d_def)
  have ring: "(a * d + b * c)\<^sup>2 - 2 * (a * c) * (b * d - a * c)
      = a\<^sup>2 * (c\<^sup>2 + d\<^sup>2) + c\<^sup>2 * (a\<^sup>2 + b\<^sup>2)"
    by (simp add: power2_eq_square algebra_simps)
  have id: "(sin (X + Y))\<^sup>2 - 2 * (a * c) * cos (X + Y) = a\<^sup>2 + c\<^sup>2"
    using ring unfolding pa pc
    by (simp add: sin_add cos_add a_def b_def c_def d_def)
  have "X \<le> pi" "Y \<le> pi" using assms pi_gt_zero by linarith+
  then have "0 \<le> a" "0 \<le> c"
    using assms(1,2) by (simp_all add: a_def c_def sin_ge_zero)
  moreover have "0 \<le> cos (X + Y)"
    using assms by (intro cos_ge_zero) linarith+
  ultimately have "0 \<le> 2 * (a * c) * cos (X + Y)" by simp
  with id show ?thesis unfolding a_def c_def by linarith
qed

lemma atan2_sin_cos:
  assumes "0 \<le> x" and "x < pi / 2"
  shows "atan2 (sin x) (cos x) = x"
proof -
  have c: "0 < cos x" using assms by (intro cos_gt_zero_pi) linarith+
  have "arctan (tan x) = x" using assms by (intro arctan_tan) linarith+
  then show ?thesis using c by (simp add: atan2_def tan_def)
qed

lemma atan2_le:
  assumes a: "0 \<le> a" and u0: "0 \<le> u" and u1: "u < pi / 2" and le: "a \<le> (sin u)\<^sup>2"
  shows "atan2 (sqrt a) (sqrt (1 - a)) \<le> u"
proof -
  have c: "0 < cos u" using u0 u1 by (intro cos_gt_zero_pi) linarith+
  have s: "0 \<le> sin u" using u0 u1 pi_gt_zero by (intro sin_ge_zero) linarith+
  have "sqrt a \<le> sqrt ((sin u)\<^sup>2)" using le by (rule real_sqrt_le_mono)
  then have n: "sqrt a \<le> sin u" using s by simp
  have "(cos u)\<^sup>2 \<le> 1 - a" using le by (simp add: cos_squared_eq)
  then have "sqrt ((cos u)\<^sup>2) \<le> sqrt (1 - a)" by (rule real_sqrt_le_mono)
  then have d: "cos u \<le> sqrt (1 - a)" using c by simp
  then have pos: "0 < sqrt (1 - a)" using c by linarith
  have "sqrt a / sqrt (1 - a) \<le> sin u / cos u"
    using s n c d by (rule frac_le)
  then have "arctan (sqrt a / sqrt (1 - a)) \<le> arctan (tan u)"
    by (simp add: arctan_le_iff tan_def)
  moreover have "arctan (tan u) = u" using u0 u1 by (intro arctan_tan) linarith+
  ultimately show ?thesis using pos by (simp add: atan2_def)
qed

lemma calculateDistance_le:
  fixes la1 lo1 la2 lo2 :: real
  assumes "\<bar>la2 - la1\<bar> + \<bar>lo2 - lo1\<bar> < 180"
  shows "\<exists>d. calculateDistance (Some (Fin la1)) (Some (Fin lo1)) (Some (Fin la2)) (Some (Fin lo2)) = Fin d
           \<and> d \<le> 6371 * ((\<bar>la2 - la1\<bar> + \<bar>lo2 - lo1\<bar>) * pi / 180)"
proof -
  define x where "x = (la2 * pi / 180 - la1 * pi / 180) / 2"
  define y where "y = ((lo2 - lo1) * pi / 180) / 2"
  define a where "a = (sin x)\<^sup>2 + cos (la1 * pi / 180) * cos (la2 * pi / 180) * (sin y)\<^sup>2"
  have ax: "\<bar>x\<bar> = \<bar>la2 - la1\<bar> * pi / 360"
    unfolding x_def by (simp add: abs_mult left_diff_distrib[symmetric] diff_divide_distrib[symmetric])
  have ay: "\<bar>y\<bar> = \<bar>lo2 - lo1\<bar> * pi / 360"
    unfolding y_def by (simp add: abs_mult)
  have sum: "\<bar>x\<bar> + \<bar>y\<bar> = (\<bar>la2 - la1\<bar> + \<bar>lo2 - lo1\<bar>) * pi / 360"
    unfolding ax ay by (simp add: algebra_simps add_divide_distrib)
  have "(\<bar>la2 - la1\<bar> + \<bar>lo2 - lo1\<bar>) * pi < 180 * pi"
    using assms by (intro mult_strict_right_mono) simp_all
  then have u1: "\<bar>x\<bar> + \<bar>y\<bar> < pi / 2" unfolding sum by simp
  have a0: "0 \<le> a" and ale: "a \<le> (sin x)\<^sup>2 + (sin y)\<^sup>2"
    unfolding a_def x_def y_def by (rule haversine_bounds)+
  have "(sin x)\<^sup>2 = (sin \<bar>x\<bar>)\<^sup>2" "(sin y)\<^sup>2 = (sin \<bar>y\<bar>)\<^sup>2"
    by (simp_all add: abs_if)
  then have "(sin x)\<^sup>2 + (sin y)\<^sup>2 \<le> (sin (\<bar>x\<bar> + \<bar>y\<bar>))\<^sup>2"
    using sin_sq_sum_le[of "\<bar>x\<bar>" "\<bar>y\<bar>"] u1 by simp
  with ale have "a \<le> (sin (\<bar>x\<bar> + \<bar>y\<bar>))\<^sup>2" by linarith
  with a0 u1 have "atan2 (sqrt a) (sqrt (1 - a)) \<le> \<bar>x\<bar> + \<bar>y\<bar>"
    by (intro atan2_le) simp_all
  then have "6371 * (2 * atan2 (sqrt a) (sqrt (1 - a)))
      \<le> 6371 * ((\<bar>la2 - la1\<bar> + \<bar>lo2 - lo1\<bar>) * pi / 180)"
    unfolding sum by (simp add: field_simps)
  moreover have "calculateDistance (Some (Fin la1)) (Some (Fin lo1)) (Some (Fin la2)) (Some (Fin lo2))
      = Fin (6371 * (2 * atan2 (sqrt a) (sqrt (1 - a))))"
    unfolding a_def x_def y_def by (rule calculateDistance_finite)
  ultimately show ?thesis by blast
qed

lemma calculateDistance_meridian:
  fixes la1 lo la2 :: real
  assumes "la1 \<le> la2" and "la2 - la1 < 180"
  shows "calculateDistance (Some (Fin la1)) (Some (Fin lo)) (Some (Fin la2)) (Some (Fin lo))
           = Fin (6371 * ((la2 - la1) * pi / 180))"
proof -
  define x where "x = (la2 * pi / 180 - la1 * pi / 180) / 2"
  have xe: "x = (la2 - la1) * pi / 360"
    unfolding x_def by (simp add: algebra_simps diff_divide_distrib)
  have x0: "0 \<le> x" unfolding xe using assms(1) by simp
  have "(la2 - la1) * pi < 180 * pi"
    using assms(2) by (intro mult_strict_right_mono) simp_all
  then have x1: "x < pi / 2" unfolding xe by simp
  have c: "0 < cos x" using x0 x1 by (intro cos_gt_zero_pi) linarith+
  have s: "0 \<le> sin x" using x0 x1 pi_gt_zero by (intro sin_ge_zero) linarith+
  have "calculateDistance (Some (Fin la1)) (Some (Fin lo)) (Some (Fin la2)) (Some (Fin lo))
      = Fin (6371 * (2 * atan2 (sqrt ((sin x)\<^sup>2)) (sqrt (1 - (sin x)\<^sup>2))))"
    using calculateDistance_finite[of la1 lo la2 lo]
    by (simp add: x_def)
  also have "sqrt (1 - (sin x)\<^sup>2) = cos x"
    using c by (simp add: cos_squared_eq[symmetric])
  also have "sqrt ((sin x)\<^sup>2) = sin x" using s by simp
  also have "atan2 (sin x) (cos x) = x" using x0 x1 by (rule atan2_sin_cos)
  finally show ?thesis by (simp add: xe)
qed

lemma near_within_box:
  fixes la1 lo1 la2 lo2 :: real
  assumes "\<bar>la2 - la1\<bar> \<le> 1 / 10000" and "\<bar>lo2 - lo1\<bar> \<le> 1 / 10000"
  shows "js_lt (calculateDistance (Some (Fin la1)) (Some (Fin lo1)) (Some (Fin la2)) (Some (Fin lo2))) (Fin 1)"
proof -
  define m where "m = \<bar>la2 - la1\<bar> + \<bar>lo2 - lo1\<bar>"
  have m: "0 \<le> m" "m \<le> 2 / 10000" using assms by (simp_all add: m_def)
  then have "m < 180" by linarith
  then obtain d where d: "calculateDistance (Some (Fin la1)) (Some (Fin lo1)) (Some (Fin la2)) (Some (Fin lo2)) = Fin d"
    and le: "d \<le> 6371 * (m * pi / 180)"
    unfolding m_def using calculateDistance_le by blast
  have "m * pi \<le> (2 / 10000) * 4"
    using m pi_less_4 by (intro mult_mono) simp_all
  then have "6371 * (m * pi / 180) < 1" by simp
  with le have "d < 1" by linarith
  then show ?thesis by (simp add: d)
qed

text \<open>
  C5. \<open>removeDuplicates\<close> goes through its input in order. A candidate with a key is
  discarded exactly when its key is already accepted or its distance to some accepted entity
  is below 1.0 km, and is appended unchanged otherwise; the accepted entities stay as they
  are. Two entities with distinct keys whose coordinates differ by at most 0.0001 degrees
  give the first one only; two entities with distinct keys at distance 2 km are both kept.
\<close>

theorem removeDuplicates_first_accepted_wins:
  "(truthy (key_of a) \<longrightarrow>
      removeDuplicates (xs @ [a]) =
        (if key_of a \<in> key_of ` set (removeDuplicates xs) \<or>
            (\<exists>e \<in> set (removeDuplicates xs).
               js_lt (calculateDistance (latitude e) (longitude e) (latitude a) (longitude a)) (Fin 1))
         then removeDuplicates xs else removeDuplicates xs @ [a])) \<and>
   (truthy (key_of e1) \<and> truthy (key_of e2) \<and> key_of e1 \<noteq> key_of e2 \<and>
    latitude e1 = Some (Fin la1) \<and> longitude e1 = Some (Fin lo1) \<and>
    latitude e2 = Some (Fin la2) \<and> longitude e2 = Some (Fin lo2) \<and>
    \<bar>la2 - la1\<bar> \<le> 1 / 10000 \<and> \<bar>lo2 - lo1\<bar> \<le> 1 / 10000
      \<longrightarrow> removeDuplicates [e1, e2] = [e1]) \<and>
   (truthy (key_of e1) \<and> truthy (key_of e2) \<and> key_of e1 \<noteq> key_of e2 \<and>
    calculateDistance (latitude e1) (longitude e1) (latitude e2) (longitude e2) = Fin 2
      \<longrightarrow> removeDuplicates [e1, e2] = [e1, e2])"
proof (intro conjI impI)
  assume "truthy (key_of a)"
  then show "removeDuplicates (xs @ [a]) =
        (if key_of a \<in> key_of ` set (removeDuplicates xs) \<or>
            (\<exists>e \<in> set (removeDuplicates xs).
               js_lt (calculateDistance (latitude e) (longitude e) (latitude a) (longitude a)) (Fin 1))
         then removeDuplicates xs else removeDuplicates xs @ [a])"
    by (simp add: removeDuplicates_snoc near_def)
next
  assume h: "truthy (key_of e1) \<and> truthy (key_of e2) \<and> key_of e1 \<noteq> key_of e2 \<and>
    latitude e1 = Some (Fin la1) \<and> longitude e1 = Some (Fin lo1) \<and>
    latitude e2 = Some (Fin la2) \<and> longitude e2 = Some (Fin lo2) \<and>
    \<bar>la2 - la1\<bar> \<le> 1 / 10000 \<and> \<bar>lo2 - lo1\<bar> \<le> 1 / 10000"
  then have "near e1 e2" by (simp add: near_def near_within_box)
  with h show "removeDuplicates [e1, e2] = [e1]" by (simp add: removeDuplicates_pair)
next
  assume h: "truthy (key_of e1) \<and> truthy (key_of e2) \<and> key_of e1 \<noteq> key_of e2 \<and>
    calculateDistance (latitude e1) (longitude e1) (latitude e2) (longitude e2) = Fin 2"
  then have "\<not> near e1 e2" by (simp add: near_def)
  with h show "removeDuplicates [e1, e2] = [e1, e2]" by (simp add: removeDuplicates_pair)
qed

theorem removeDuplicates_first_accepted_wins_witness:
  "removeDuplicates [seed ex_low, seed ex_low] = [seed ex_low] \<and>
   removeDuplicates [seed ex_low, seed ex_near] = [seed ex_low] \<and>
   calculateDistance (latitude (seed ex_low)) (longitude (seed ex_low))
     (latitude (seed ex_far)) (longitude (seed ex_far)) = Fin 2 \<and>
   removeDuplicates [seed ex_low, seed ex_far] = [seed ex_low, seed ex_far]"
proof -
  have k: "truthy (key_of (seed ex_low))" "truthy (key_of (seed ex_near))"
    "truthy (key_of (seed ex_far))" "key_of (seed ex_low) \<noteq> key_of (seed ex_near)"
    "key_of (seed ex_low) \<noteq> key_of (seed ex_far)"
    by (simp_all add: key_of_seed ex_keys ex_keys2)
  have s: "removeDuplicates [seed ex_low] = [seed ex_low]"
    using k(1) by (rule removeDuplicates_single)
  have p: "latitude (seed ex_low) = Some (Fin 10)" "longitude (seed ex_low) = Some (Fin 20)"
    "latitude (seed ex_near) = Some (Fin (100001 / 10000))" "longitude (seed ex_near) = Some (Fin 20)"
    "latitude (seed ex_far) = Some (Fin (10 + 360 / (6371 * pi)))" "longitude (seed ex_far) = Some (Fin 20)"
    by (simp_all add: seed_sel ex_low_def ex_near_def ex_far_def)
  have "0 < 360 / (6371 * pi)" by simp
  moreover have "360 / (6371 * pi) < 180"
    using pi_ge_two by (simp add: field_simps)
  ultimately have d: "calculateDistance (Some (Fin 10)) (Some (Fin 20))
      (Some (Fin (10 + 360 / (6371 * pi)))) (Some (Fin 20)) = Fin 2"
    using calculateDistance_meridian[of 10 "10 + 360 / (6371 * pi)" 20] by simp
  have b: "\<bar>100001 / 10000 - (10::real)\<bar> \<le> 1 / 10000" "\<bar>20 - (20::real)\<bar> \<le> 1 / 10000"
    by simp_all
  note t = removeDuplicates_first_accepted_wins
  have "removeDuplicates ([seed ex_low] @ [seed ex_low]) = [seed ex_low]"
    using t[of "seed ex_low" "[seed ex_low]"] k(1) s by simp
  moreover have "removeDuplicates [seed ex_low, seed ex_near] = [seed ex_low]"
    using t[of _ _ "seed ex_low" "seed ex_near" 10 20 "100001 / 10000" 20] k p b by blast
  moreover have "removeDuplicates [seed ex_low, seed ex_far] = [seed ex_low, seed ex_far]"
    using t[of _ _ "seed ex_low" "seed ex_far"] k p d by simp
  ultimately show ?thesis using d p by simp
qed

section \<open>Keys of fused and deduplicated entities\<close>

text \<open>
  Every entity that \<open>fuseAircraftData\<close> returns has a truthy key, the one it is stored
  under, and the keys are pairwise distinct; the same holds for what \<open>removeDuplicates\<close>
  returns on any input. These are the entities \<open>removeDuplicates\<close> and \<open>updateCache\<close>
  receive in a cycle.
\<close>

lemma key_of_object_assign:
  assumes "truthy (key_of r)" and "key_of e = key_of r"
  shows "key_of (object_assign e r) = key_of r"
  using assms
  by (cases "icao24 r"; cases "callsign r")
     (auto simp: key_of_def js_or_def object_assign_def assign_prop_def split: if_splits)

lemma key_of_merge:
  assumes "truthy (key_of r)" and "key_of e = key_of r"
  shows "key_of (merge_timestamp (merge_priority e r) r) = key_of r"
proof -
  have "key_of (merge_priority e r) = key_of r"
    using key_of_object_assign[OF assms] assms(2)
    by (simp add: merge_priority_def key_of_def)
  then show ?thesis by (simp add: merge_timestamp_def key_of_def)
qed

lemma update_entries:
  "(k', e) \<in> set (AList.update k v al) \<Longrightarrow> (k', e) = (k, v) \<or> (k', e) \<in> set al"
  by (induction al) (auto split: if_splits)

lemma fuse_step_keyed:
  assumes "\<forall>(k, e) \<in> set m. truthy k \<and> key_of e = k"
  shows "\<forall>(k, e) \<in> set (fuse_step r m). truthy k \<and> key_of e = k"
proof (cases "truthy (key_of r)")
  case False
  then show ?thesis using assms by (simp add: fuse_step_def)
next
  case True
  show ?thesis
  proof (cases "map_of m (key_of r)")
    case None
    then show ?thesis
      using True assms by (auto simp: fuse_step_def key_of_seed dest!: update_entries)
  next
    case (Some existing)
    then have "(key_of r, existing) \<in> set m" by (rule map_of_SomeD)
    then have "key_of existing = key_of r" using assms by auto
    with True have "key_of (merge_timestamp (merge_priority existing r) r) = key_of r"
      by (rule key_of_merge)
    then show ?thesis
      using True Some assms by (auto simp: fuse_step_def dest!: update_entries)
  qed
qed

lemma fuse_step_distinct: "distinct (map fst m) \<Longrightarrow> distinct (map fst (fuse_step r m))"
  by (simp add: fuse_step_def Let_def distinct_update split: option.splits)

lemma fold_fuse_step_keyed:
  "(\<forall>(k, e) \<in> set m. truthy k \<and> key_of e = k) \<and> distinct (map fst m) \<Longrightarrow>
   (\<forall>(k, e) \<in> set (fold fuse_step rs m). truthy k \<and> key_of e = k) \<and>
   distinct (map fst (fold fuse_step rs m))"
proof (induction rs arbitrary: m)
  case Nil
  then show ?case by simp
next
  case (Cons r rs)
  from Cons.prems have "(\<forall>(k, e) \<in> set (fuse_step r m). truthy k \<and> key_of e = k) \<and>
      distinct (map fst (fuse_step r m))"
    using fuse_step_keyed[of m r] fuse_step_distinct[of m r] by blast
  then show ?case using Cons.IH by simp
qed

lemma fuseAircraftData_keys:
  "(\<forall>e \<in> set (fuseAircraftData rs). truthy (key_of e)) \<and>
   distinct (map key_of (fuseAircraftData rs))"
proof -
  define m where "m = fold fuse_step rs []"
  have inv: "\<forall>(k, e) \<in> set m. truthy k \<and> key_of e = k" and d: "distinct (map fst m)"
    unfolding m_def using fold_fuse_step_keyed[of "[]" rs] by simp_all
  from inv have eq: "map key_of (map snd m) = map fst m" by auto
  have "distinct (map key_of (map snd m))" unfolding eq by (rule d)
  moreover have "\<forall>e \<in> set (map snd m). truthy (key_of e)" using inv by auto
  ultimately show ?thesis
    unfolding fuseAircraftData_def m_def[symmetric] by blast
qed

lemma dedup_step_distinct:
  assumes "snd st = key_of ` set (fst st)"
    and "distinct (map key_of (fst st))" and "\<forall>e \<in> set (fst st). truthy (key_of e)"
  shows "distinct (map key_of (fst (dedup_step a st))) \<and>
         (\<forall>e \<in> set (fst (dedup_step a st)). truthy (key_of e))"
  using assms by (auto simp: dedup_step_def Let_def)

lemma fold_dedup_step_distinct:
  "snd st = key_of ` set (fst st) \<Longrightarrow>
   distinct (map key_of (fst st)) \<and> (\<forall>e \<in> set (fst st). truthy (key_of e)) \<Longrightarrow>
   distinct (map key_of (fst (fold dedup_step xs st))) \<and>
   (\<forall>e \<in> set (fst (fold dedup_step xs st)). truthy (key_of e))"
proof (induction xs arbitrary: st)
  case Nil
  then show ?case by simp
next
  case (Cons a xs)
  have "snd (dedup_step a st) = key_of ` set (fst (dedup_step a st))"
    using Cons.prems(1) by (rule dedup_step_keys)
  moreover have "distinct (map key_of (fst (dedup_step a st))) \<and>
         (\<forall>e \<in> set (fst (dedup_step a st)). truthy (key_of e))"
    using Cons.prems by (intro dedup_step_distinct) simp_all
  ultimately show ?case using Cons.IH by simp
qed

lemma removeDuplicates_keys:
  "distinct (map key_of (removeDuplicates xs)) \<and>
   (\<forall>e \<in> set (removeDuplicates xs). truthy (key_of e))"
  unfolding removeDuplicates_def by (rule fold_dedup_step_distinct) simp_all

section \<open>The cache update\<close>

lemma fold_cache_set_other:
  "k \<notin> key_of ` set es \<Longrightarrow> fold cache_set es c k = c k"
  by (induction es arbitrary: c) (auto simp: cache_set_def Let_def)

lemma fold_cache_set_last:
  assumes "truthy (key_of e)" and "key_of e \<notin> key_of ` set ys"
  shows "fold cache_set (xs @ e # ys) c (key_of e) = Some e"
proof -
  have "fold cache_set (xs @ e # ys) c (key_of e) = cache_set e (fold cache_set xs c) (key_of e)"
    using assms(2) by (simp add: fold_cache_set_other)
  then show ?thesis using assms(1) by (simp add: cache_set_def Let_def)
qed

lemma fold_cache_set_distinct:
  assumes "distinct (map key_of es)" and "e \<in> set es" and "truthy (key_of e)"
  shows "fold cache_set es c (key_of e) = Some e"
proof -
  from assms(2) obtain xs ys where es: "es = xs @ e # ys" by (auto dest: split_list)
  with assms(1) have "key_of e \<notin> key_of ` set ys" by auto
  with assms(3) show ?thesis unfolding es by (rule fold_cache_set_last)
qed

lemma sweep_expired:
  "c k = Some v \<Longrightarrow> timestamp v = Some (Fin t) \<Longrightarrow> now - t > 30000 \<Longrightarrow> sweep now c k = None"
  by (simp add: sweep_def expired_def maxAge_def)

lemma sweep_kept:
  "c k = Some v \<Longrightarrow> timestamp v = Some (Fin t) \<Longrightarrow> \<not> now - t > 30000 \<Longrightarrow> sweep now c k = Some v"
  by (simp add: sweep_def expired_def maxAge_def)

text \<open>
  C6. \<open>updateCache\<close> sweeps first and inserts afterwards. An entry of a key outside the
  batch is absent afterwards when its timestamp is more than 30000 ms before \<open>now\<close> (so at
  \<open>now - 31000\<close>) and is kept as it is otherwise (so at \<open>now - 29000\<close>). Every entity of a
  batch with distinct keys is the whole cache entry of its key afterwards, whatever the
  cache held and whatever the entity's own timestamp.
\<close>

theorem updateCache_sweeps_then_inserts:
  "(\<forall>k v t. c k = Some v \<and> timestamp v = Some (Fin t) \<and> now - t > 30000 \<and>
       k \<notin> key_of ` set batch \<longrightarrow> updateCache now batch c k = None) \<and>
   (\<forall>k v t. c k = Some v \<and> timestamp v = Some (Fin t) \<and> \<not> now - t > 30000 \<and>
       k \<notin> key_of ` set batch \<longrightarrow> updateCache now batch c k = Some v) \<and>
   (\<forall>k v. c k = Some v \<and> timestamp v = Some (Fin (now - 31000)) \<and>
       k \<notin> key_of ` set batch \<longrightarrow> updateCache now batch c k = None) \<and>
   (\<forall>k v. c k = Some v \<and> timestamp v = Some (Fin (now - 29000)) \<and>
       k \<notin> key_of ` set batch \<longrightarrow> updateCache now batch c k = Some v) \<and>
   (distinct (map key_of batch) \<longrightarrow>
      (\<forall>e \<in> set batch. truthy (key_of e) \<longrightarrow> updateCache now batch c (key_of e) = Some e))"
proof (intro conjI allI impI ballI)
  fix k v t
  assume "c k = Some v \<and> timestamp v = Some (Fin t) \<and> now - t > 30000 \<and> k \<notin> key_of ` set batch"
  then show "updateCache now batch c k = None"
    by (simp add: updateCache_def fold_cache_set_other sweep_expired)
next
  fix k v t
  assume "c k = Some v \<and> timestamp v = Some (Fin t) \<and> \<not> now - t > 30000 \<and> k \<notin> key_of ` set batch"
  then show "updateCache now batch c k = Some v"
    by (simp add: updateCache_def fold_cache_set_other sweep_kept)
next
  fix k v
  assume "c k = Some v \<and> timestamp v = Some (Fin (now - 31000)) \<and> k \<notin> key_of ` set batch"
  then show "updateCache now batch c k = None"
    by (simp add: updateCache_def fold_cache_set_other sweep_expired[where t = "now - 31000"])
next
  fix k v
  assume "c k = Some v \<and> timestamp v = Some (Fin (now - 29000)) \<and> k \<notin> key_of ` set batch"
  then show "updateCache now batch c k = Some v"
    by (simp add: updateCache_def fold_cache_set_other sweep_kept[where t = "now - 29000"])
next
  fix e
  assume "distinct (map key_of batch)" and "e \<in> set batch" and "truthy (key_of e)"
  then show "updateCache now batch c (key_of e) = Some e"
    unfolding updateCache_def by (rule fold_cache_set_distinct)
qed

theorem updateCache_sweeps_then_inserts_witness:
  "ex_cache (Some ''01d001'') = Some (seed ex_old) \<and>
   timestamp (seed ex_old) = Some (Fin (100000 - 31000)) \<and>
   updateCache 100000 [seed ex_local] ex_cache (Some ''01d001'') = None \<and>
   timestamp (seed ex_fresh) = Some (Fin (100000 - 29000)) \<and>
   updateCache 100000 [seed ex_local] ex_cache (Some ''f4e5b0'') = Some (seed ex_fresh) \<and>
   ex_cache (Some ''4b1805'') = Some (seed ex_low) \<and>
   updateCache 100000 [seed ex_local] ex_cache (Some ''4b1805'') = Some (seed ex_local)"
proof -
  note t = updateCache_sweeps_then_inserts[of ex_cache 100000 "[seed ex_local]"]
  have c: "ex_cache (Some ''01d001'') = Some (seed ex_old)"
    "ex_cache (Some ''f4e5b0'') = Some (seed ex_fresh)"
    "ex_cache (Some ''4b1805'') = Some (seed ex_low)"
    by (simp_all add: ex_cache_def)
  have ts: "timestamp (seed ex_old) = Some (Fin (100000 - 31000))"
    "timestamp (seed ex_fresh) = Some (Fin (100000 - 29000))"
    by (simp_all add: seed_sel ex_old_def ex_fresh_def)
  have k: "key_of (seed ex_local) = Some ''4b1805''"
    by (simp add: key_of_seed ex_keys)
  have n: "Some ''01d001'' \<notin> key_of ` set [seed ex_local]"
    "Some ''f4e5b0'' \<notin> key_of ` set [seed ex_local]"
    by (simp_all add: k)
  have "updateCache 100000 [seed ex_local] ex_cache (Some ''01d001'') = None"
    using t c(1) ts(1) n(1) by blast
  moreover have "updateCache 100000 [seed ex_local] ex_cache (Some ''f4e5b0'') = Some (seed ex_fresh)"
    using t c(2) ts(2) n(2) by blast
  moreover have "updateCache 100000 [seed ex_local] ex_cache (key_of (seed ex_local)) = Some (seed ex_local)"
    using t by (simp add: k)
  ultimately show ?thesis using c ts k by simp
qed

section \<open>One processing cycle\<close>






section \<open>A cycle that throws\<close>

lemma delete_middle:
  assumes "distinct (map fst (pre @ (k, v) # rest))"
  shows "AList.delete k (pre @ (k, v) # rest) = pre @ rest"
proof -
  have "k \<notin> fst ` set pre" "k \<notin> fst ` set rest" using assms by auto
  then have "AList.delete k pre = pre" "AList.delete k rest = rest"
    by (simp_all add: delete_id)
  then show ?thesis by (simp add: AList.delete_eq)
qed

lemma sweep_test:
  assumes "to_primitive (timestamp v) = Inr ts"
  shows "js_gt (js_sub (Fin now) (to_number ts)) (Fin maxAge)
         \<longleftrightarrow> (\<exists>t. timestamp v = Some (Number (Fin t)) \<and> now - t > 30000)"
proof (cases "timestamp v")
  case None
  then show ?thesis using assms by auto
next
  case (Some x)
  then show ?thesis using assms
    by (cases x; cases ts) (auto simp: maxAge_def elim: js_sub.elims js_gt.elims)
qed




lemma sweep_raw_distinct:
  "distinct (map fst c) \<Longrightarrow> distinct (map fst (snd (sweep_raw now es c)))"
proof (induction es arbitrary: c)
  case Nil
  then show ?case by simp
next
  case (Cons x es)
  obtain k1 v1 where x: "x = (k1, v1)" by (cases x)
  have "distinct (map fst (AList.delete k1 c))" using Cons.prems by (rule distinct_delete)
  then show ?case
    using Cons by (simp add: x split: sum.splits)
qed

lemma fold_cache_set_raw_distinct:
  "distinct (map fst c) \<Longrightarrow> distinct (map fst (fold cache_set_raw es c))"
  by (induction es arbitrary: c) (simp_all add: cache_set_raw_def Let_def distinct_update)

lemma processAircraftData_raw_distinct:
  assumes "distinct (map fst c)"
  shows "distinct (map fst (snd (processAircraftData_raw t0 t1 now data c)))"
proof -
  have u: "distinct (map fst (snd (updateCache_raw now es c)))" for es
    using sweep_raw_distinct[OF assms, of now c]
    by (auto simp: updateCache_raw_def fold_cache_set_raw_distinct split: prod.splits option.splits)
  have "updateCache_raw now es c = (r, c') \<Longrightarrow> distinct (map fst c')" for es r c'
    using u[of es] by simp
  then show ?thesis
    using assms
    by (auto simp: processAircraftData_raw_def split: sum.splits prod.splits option.splits)
qed







section \<open>The two models agree\<close>

text \<open>
  On a snapshot and a cache all of whose numeric properties are numbers or absent, the
  model with throwing operations does what the typed model does: \<open>fuseAircraftData\<close> and
  \<open>removeDuplicates\<close> return the same entities, and a cycle posts the same messages and
  leaves a cache with the same mapping (\<open>typed_cycle_agrees\<close>).
\<close>

lemma key_of_lift: "key_of (lift_report r) = key_of r" "key_of (lift_entity e) = key_of e"
  by (simp_all add: key_of_def lift_report_def lift_entity_def)

lemma seed_lift: "seed (lift_report r) = lift_entity (seed r)"
  by (simp add: seed_def lift_report_def lift_entity_def)

lemma to_primitive_Number: "to_primitive (map_option Number x) = Inr x"
  by (cases x) simp_all

lemma gt_raw_lift:
  "gt_raw (map_option Number x) (map_option Number y) = Inr (js_gt (to_number x) (to_number y))"
  by (simp add: gt_raw_def to_primitive_Number)

lemma average_raw_lift:
  "average_raw (map_option Number x) (map_option Number y) = Inr (map_option Number (average x y))"
  by (simp add: average_raw_def to_primitive_Number)

lemma strict_eq_raw_lift: "strict_eq_raw (map_option Number x) (map_option Number y) = strict_eq x y"
  by (cases x; cases y) simp_all

lemma assign_prop_map:
  "assign_prop (map_option f x) (map_option f y) = map_option f (assign_prop x y)"
  by (simp add: assign_prop_def split: option.splits)

lemma object_assign_lift:
  "(object_assign (lift_entity e) (lift_report r))\<lparr>confidence := c\<rparr>
     = lift_entity ((object_assign e r)\<lparr>confidence := c\<rparr>)"
  by (simp add: object_assign_def lift_entity_def lift_report_def assign_prop_map)

lemma merge_priority_raw_lift:
  "merge_priority_raw (lift_entity e) (lift_report r) = Inr (lift_entity (merge_priority e r))"
proof -
  have sel: "priority (lift_entity e) = map_option Number (priority e)"
    "priority (lift_report r) = map_option Number (priority r)"
    "latitude (lift_entity e) = map_option Number (latitude e)"
    "latitude (lift_report r) = map_option Number (latitude r)"
    "longitude (lift_entity e) = map_option Number (longitude e)"
    "longitude (lift_report r) = map_option Number (longitude r)"
    "altitude (lift_entity e) = map_option Number (altitude e)"
    "altitude (lift_report r) = map_option Number (altitude r)"
    "velocity (lift_entity e) = map_option Number (velocity e)"
    "velocity (lift_report r) = map_option Number (velocity r)"
    "heading (lift_entity e) = map_option Number (heading e)"
    "heading (lift_report r) = map_option Number (heading r)"
    "confidence (lift_entity e) = confidence e"
    by (simp_all add: lift_entity_def lift_report_def)
  show ?thesis
  proof (cases "js_gt (to_number (priority r)) (to_number (priority e))")
    case True
    then show ?thesis
      by (simp add: merge_priority_raw_def merge_priority_def sel gt_raw_lift object_assign_lift)
  next
    case False
    show ?thesis
    proof (cases "strict_eq (priority r) (priority e)")
      case True
      with False show ?thesis
        by (simp add: merge_priority_raw_def merge_priority_def sel gt_raw_lift strict_eq_raw_lift
            average_raw_lift)
           (simp add: lift_entity_def)
    next
      case ne: False
      with False show ?thesis
        by (simp add: merge_priority_raw_def merge_priority_def sel gt_raw_lift strict_eq_raw_lift)
    qed
  qed
qed

lemma merge_timestamp_raw_lift:
  "merge_timestamp_raw (lift_entity e) (lift_report r) = Inr (lift_entity (merge_timestamp e r))"
proof -
  have sel: "timestamp (lift_entity e) = map_option Number (timestamp e)"
    "timestamp (lift_report r) = map_option Number (timestamp r)"
    by (simp_all add: lift_entity_def lift_report_def)
  show ?thesis
    by (simp add: merge_timestamp_raw_def merge_timestamp_def sel gt_raw_lift)
       (simp add: lift_entity_def)
qed

lemma update_map:
  "AList.update k (f v) (map (apsnd f) al) = map (apsnd f) (AList.update k v al)"
  by (induction al) auto

lemma map_of_apsnd: "map_of (map (apsnd f) al) k = map_option f (map_of al k)"
  by (induction al) auto

lemma fuse_step_raw_lift:
  "fuse_step_raw (lift_report r) (map (apsnd lift_entity) m)
     = Inr (map (apsnd lift_entity) (fuse_step r m))"
proof (cases "map_of m (key_of r)")
  case None
  then show ?thesis
    by (simp add: fuse_step_raw_def fuse_step_def Let_def key_of_lift map_of_apsnd seed_lift update_map)
next
  case (Some existing)
  then show ?thesis
    by (simp add: fuse_step_raw_def fuse_step_def Let_def key_of_lift map_of_apsnd update_map
        merge_priority_raw_lift merge_timestamp_raw_lift)
qed

lemma forEach_fold:
  assumes "\<And>x s. f (l x) (g s) = Inr (g (h x s))"
  shows "forEach f (map l xs) (g s) = Inr (g (fold h xs s))"
  by (induction xs arbitrary: s) (simp_all add: assms)

lemma fuseAircraftData_raw_lift:
  "fuseAircraftData_raw (map lift_report rs) = Inr (map lift_entity (fuseAircraftData rs))"
proof -
  have "forEach fuse_step_raw (map lift_report rs) (map (apsnd lift_entity) [])
      = Inr (map (apsnd lift_entity) (fold fuse_step rs []))"
    by (rule forEach_fold) (rule fuse_step_raw_lift)
  then show ?thesis
    by (simp add: fuseAircraftData_raw_def fuseAircraftData_def)
qed

lemma near_raw_lift: "near_raw (lift_entity e) (lift_entity a) = Inr (near e a)"
  by (simp add: near_raw_def near_def calculateDistance_raw_def lift_entity_def to_primitive_Number)

lemma array_some_list_ex:
  assumes "\<And>x. p (l x) = Inr (q x)"
  shows "array_some p (map l xs) = Inr (list_ex q xs)"
  by (induction xs) (simp_all add: assms)

lemma dedup_step_raw_lift:
  "dedup_step_raw (lift_entity a) (map lift_entity (fst st), snd st)
     = Inr (map lift_entity (fst (dedup_step a st)), snd (dedup_step a st))"
proof -
  have "array_some (\<lambda>existing. near_raw existing (lift_entity a)) (map lift_entity (fst st))
      = Inr (list_ex (\<lambda>existing. near existing a) (fst st))"
    by (rule array_some_list_ex) (rule near_raw_lift)
  then show ?thesis
    by (simp add: dedup_step_raw_def dedup_step_def key_of_lift Let_def)
qed

lemma removeDuplicates_raw_lift:
  "removeDuplicates_raw (map lift_entity es) = Inr (map lift_entity (removeDuplicates es))"
proof -
  have "forEach dedup_step_raw (map lift_entity es) (map lift_entity (fst st), snd st)
      = Inr (map lift_entity (fst (fold dedup_step es st)), snd (fold dedup_step es st))" for st
    by (induction es arbitrary: st) (simp_all add: dedup_step_raw_lift)
  from this[of "([], {})"] show ?thesis
    by (simp add: removeDuplicates_raw_def removeDuplicates_def)
qed

lemma sweep_raw_completes:
  assumes "distinct (map fst (pre @ es))"
    and "\<forall>(k', v') \<in> set es. timestamp v' \<noteq> Some Unconvertible"
  shows "sweep_raw now es (pre @ es) =
           (None,
            pre @ filter (\<lambda>(k', v'). \<not> (\<exists>t. timestamp v' = Some (Number (Fin t)) \<and> now - t > 30000)) es)"
  using assms
proof (induction es arbitrary: pre)
  case Nil
  then show ?case by simp
next
  case (Cons x es)
  obtain k1 v1 where x: "x = (k1, v1)" by (cases x)
  from Cons.prems(2) x have "timestamp v1 \<noteq> Some Unconvertible" by simp
  then obtain ts where ts: "to_primitive (timestamp v1) = Inr ts"
    by (cases "timestamp v1" rule: to_primitive.cases) auto
  note test = sweep_test[OF ts, of now]
  have rest: "\<forall>(k', v') \<in> set es. timestamp v' \<noteq> Some Unconvertible"
    using Cons.prems(2) by simp
  show ?case
  proof (cases "\<exists>t. timestamp v1 = Some (Number (Fin t)) \<and> now - t > 30000")
    case True
    then have g: "js_gt (js_sub (Fin now) (to_number ts)) (Fin maxAge)"
      using test by blast
    have del: "AList.delete k1 (pre @ (k1, v1) # es) = pre @ es"
      using Cons.prems(1) unfolding x by (intro delete_middle) simp
    have d: "distinct (map fst (pre @ es))"
      using Cons.prems(1) by simp
    have "sweep_raw now (x # es) (pre @ x # es) = sweep_raw now es (pre @ es)"
      using g ts del by (simp add: x)
    also have "\<dots> = (None,
            pre @ filter (\<lambda>(k', v'). \<not> (\<exists>t. timestamp v' = Some (Number (Fin t)) \<and> now - t > 30000)) es)"
      using d rest by (rule Cons.IH)
    finally show ?thesis using True by (simp add: x)
  next
    case False
    then have g: "\<not> js_gt (js_sub (Fin now) (to_number ts)) (Fin maxAge)"
      using test by blast
    have d: "distinct (map fst ((pre @ [(k1, v1)]) @ es))"
      using Cons.prems(1) unfolding x by simp
    have "sweep_raw now (x # es) (pre @ x # es) = sweep_raw now es ((pre @ [(k1, v1)]) @ es)"
      using g ts by (simp add: x)
    also have "\<dots> = (None,
            (pre @ [(k1, v1)]) @ filter (\<lambda>(k', v'). \<not> (\<exists>t. timestamp v' = Some (Number (Fin t)) \<and> now - t > 30000)) es)"
      using d rest by (rule Cons.IH)
    finally show ?thesis using False by (simp add: x)
  qed
qed

lemma expired_lift:
  "(\<exists>t. timestamp (lift_entity v) = Some (Number (Fin t)) \<and> now - t > 30000) \<longleftrightarrow> expired now v"
proof (cases "timestamp v")
  case None
  then show ?thesis by (simp add: expired_def lift_entity_def)
next
  case (Some n)
  then show ?thesis by (cases n) (auto simp: expired_def lift_entity_def maxAge_def)
qed

lemma sweep_raw_lift:
  assumes "distinct (map fst al)"
  shows "sweep_raw now (map (apsnd lift_entity) al) (map (apsnd lift_entity) al) =
           (None, map (apsnd lift_entity) (filter (\<lambda>(k, v). \<not> expired now v) al))"
proof -
  have d: "distinct (map fst ([] @ map (apsnd lift_entity) al))"
    using assms by (simp add: o_def)
  have c: "\<forall>(k', v') \<in> set (map (apsnd lift_entity) al). timestamp v' \<noteq> Some Unconvertible"
    by (auto simp: lift_entity_def)
  have f: "filter (\<lambda>(k', v'). \<not> (\<exists>t. timestamp v' = Some (Number (Fin t)) \<and> now - t > 30000))
             (map (apsnd lift_entity) al)
         = map (apsnd lift_entity) (filter (\<lambda>(k, v). \<not> expired now v) al)"
    by (induction al) (auto simp: expired_lift[symmetric])
  show ?thesis
    using sweep_raw_completes[OF d c, of now] f by simp
qed

lemma map_of_filter_values:
  assumes "distinct (map fst al)"
  shows "map_of (filter (\<lambda>(k, v). Q v) al) k =
           (case map_of al k of None \<Rightarrow> None | Some v \<Rightarrow> if Q v then Some v else None)"
  using assms
proof (induction al)
  case Nil
  then show ?case by simp
next
  case (Cons x al)
  obtain k1 v1 where x: "x = (k1, v1)" by (cases x)
  have "k1 \<notin> fst ` set al" using Cons.prems x by simp
  then have n: "map_of al k1 = None" by (simp add: map_of_eq_None_iff)
  have "k1 \<notin> fst ` set (filter (\<lambda>(k, v). Q v) al)"
    using \<open>k1 \<notin> fst ` set al\<close> by auto
  then have n': "map_of (filter (\<lambda>(k, v). Q v) al) k1 = None"
    by (simp add: map_of_eq_None_iff)
  show ?case using Cons n n' by (auto simp: x)
qed

lemma sweep_map_of:
  assumes "distinct (map fst al)"
  shows "map_of (filter (\<lambda>(k, v). \<not> expired now v) al) = sweep now (map_of al)"
  by (rule ext) (simp add: map_of_filter_values[OF assms] sweep_def split: option.splits)

lemma cache_set_raw_lift:
  "cache_set_raw (lift_entity a) (map (apsnd lift_entity) al) =
     map (apsnd lift_entity) (if truthy (key_of a) then AList.update (key_of a) a al else al)"
  by (simp add: cache_set_raw_def key_of_lift update_map)

lemma cache_set_map_of:
  "cache_set a (map_of al) = map_of (if truthy (key_of a) then AList.update (key_of a) a al else al)"
  by (simp add: cache_set_def update_conv')

lemma fold_cache_set_raw_lift:
  "\<exists>al'. fold cache_set_raw (map lift_entity es) (map (apsnd lift_entity) al)
            = map (apsnd lift_entity) al' \<and>
          (distinct (map fst al) \<longrightarrow> distinct (map fst al')) \<and>
          map_of al' = fold cache_set es (map_of al)"
proof (induction es arbitrary: al)
  case Nil
  show ?case by (rule exI[of _ al]) simp
next
  case (Cons a es)
  show ?case
  proof (cases "truthy (key_of a)")
    case True
    from Cons[of "AList.update (key_of a) a al"] obtain al' where
      "fold cache_set_raw (map lift_entity es) (map (apsnd lift_entity) (AList.update (key_of a) a al))
         = map (apsnd lift_entity) al'"
      "distinct (map fst (AList.update (key_of a) a al)) \<longrightarrow> distinct (map fst al')"
      "map_of al' = fold cache_set es (map_of (AList.update (key_of a) a al))"
      by blast
    with True show ?thesis
      by (intro exI[of _ al'])
         (simp add: cache_set_raw_lift cache_set_map_of distinct_update)
  next
    case False
    from Cons[of al] obtain al' where
      "fold cache_set_raw (map lift_entity es) (map (apsnd lift_entity) al)
         = map (apsnd lift_entity) al'"
      "distinct (map fst al) \<longrightarrow> distinct (map fst al')"
      "map_of al' = fold cache_set es (map_of al)"
      by blast
    with False show ?thesis
      by (intro exI[of _ al']) (simp add: cache_set_raw_lift cache_set_map_of)
  qed
qed

lemma updateCache_raw_lift:
  assumes "distinct (map fst al)"
  shows "\<exists>al'. updateCache_raw now (map lift_entity es) (map (apsnd lift_entity) al)
            = (None, map (apsnd lift_entity) al') \<and>
          distinct (map fst al') \<and>
          map_of al' = updateCache now es (map_of al)"
proof -
  let ?kept = "filter (\<lambda>(k, v). \<not> expired now v) al"
  have d: "distinct (map fst ?kept)" using assms by (simp add: distinct_map_filter)
  from fold_cache_set_raw_lift[of es ?kept] d obtain al' where
    "fold cache_set_raw (map lift_entity es) (map (apsnd lift_entity) ?kept)
       = map (apsnd lift_entity) al'"
    "distinct (map fst al')" "map_of al' = fold cache_set es (map_of ?kept)"
    by blast
  then show ?thesis
    by (intro exI[of _ al'])
       (simp add: updateCache_raw_def updateCache_def sweep_raw_lift[OF assms] sweep_map_of[OF assms])
qed

lemma tag_raw_lift: "tag_raw s p (lift_report r) = lift_report (tag s p r)"
  by (simp add: tag_raw_def tag_def lift_report_def)

lemma collect_raw_lift:
  "collect_raw (map_source_prop_of lift_report sv) s p (map lift_report xs)
     = map_sum id (map lift_report) (collect sv s p xs)"
proof (cases sv)
  case NoSource
  then show ?thesis by simp
next
  case (SourceObject ap)
  then show ?thesis by (cases ap) (simp_all add: tag_raw_lift)
qed

lemma flatten_raw_lift:
  "flatten_raw (map_option lift_snapshot data) = map_sum id (map lift_report) (flatten data)"
proof (cases data)
  case None
  then show ?thesis by (simp add: flatten_raw_def flatten_def)
next
  case (Some d)
  have c1: "collect_raw (map_source_prop_of lift_report (local d)) ''local'' 3 []
      = map_sum id (map lift_report) (collect (local d) ''local'' 3 [])"
    using collect_raw_lift[of "local d" "''local''" 3 "[]"] by simp
  show ?thesis
    unfolding Some
    by (simp add: flatten_raw_def flatten_def lift_snapshot_def c1 collect_raw_lift
        split: sum.splits)
qed

lemma card_dom_map_of: "distinct (map fst al) \<Longrightarrow> card (dom (map_of al)) = length al"
  by (simp add: dom_map_of_conv_image_fst distinct_card flip: set_map)

lemma typed_cycle_agrees:
  assumes "distinct (map fst al)"
  shows "\<exists>al'. processAircraftData_raw t0 t1 now (map_option lift_snapshot data)
                  (map (apsnd lift_entity) al)
                = (map (map_message_of lift_entity)
                     (fst (processAircraftData t0 t1 now data (map_of al))),
                   map (apsnd lift_entity) al') \<and>
               distinct (map fst al') \<and>
               map_of al' = snd (processAircraftData t0 t1 now data (map_of al))"
proof (cases "flatten data")
  case (Inl e)
  then have "flatten_raw (map_option lift_snapshot data) = Inl e"
    by (simp add: flatten_raw_lift)
  with Inl assms show ?thesis
    by (intro exI[of _ al]) (simp add: processAircraftData_raw_def processAircraftData_def)
next
  case (Inr allAircraft)
  let ?cleaned = "removeDuplicates (fuseAircraftData allAircraft)"
  have f: "flatten_raw (map_option lift_snapshot data) = Inr (map lift_report allAircraft)"
    using Inr by (simp add: flatten_raw_lift)
  from updateCache_raw_lift[OF assms, of now ?cleaned] obtain al' where
    u: "updateCache_raw now (map lift_entity ?cleaned) (map (apsnd lift_entity) al)
          = (None, map (apsnd lift_entity) al')"
    and d: "distinct (map fst al')"
    and m: "map_of al' = updateCache now ?cleaned (map_of al)"
    by blast
  have "card (dom (updateCache now ?cleaned (map_of al))) = length al'"
    using card_dom_map_of[OF d] m by simp
  then show ?thesis
    using Inr d m
    by (intro exI[of _ al'])
       (simp add: processAircraftData_raw_def processAircraftData_def Let_def f
          fuseAircraftData_raw_lift removeDuplicates_raw_lift u)
qed

end
